theory Spec2Isabelle
  imports Complex_Main
begin

section \<open>THcHallCSpectrometer: target reconstruction and golden-track selection\<close>

text \<open>
  A shallow embedding of \<^verbatim>\<open>src/THcHallCSpectrometer.cxx\<close>: \<^verbatim>\<open>FindVertices\<close> (the
  COSY transport map from the focal plane to the target) and \<^verbatim>\<open>TrackCalc\<close> (the three
  golden-track selections).

  Conventions of the embedding.
  \<^item> A \<^verbatim>\<open>Double_t\<close> is a \<^typ>\<open>real\<close>: rounding, infinities and NaN are outside the
    model. In particular the quotient \<^verbatim>\<open>GetChi2() / GetNDoF()\<close> of a track with zero
    degrees of freedom is an infinity or a NaN in the program; the theorems that speak about
    that quotient assume a non-zero \<^verbatim>\<open>NDoF\<close>.
  \<^item> An \<^verbatim>\<open>Int_t\<close> is an \<^typ>\<open>int\<close> (no overflow is reachable on the values used), a
    count or loop index a \<^typ>\<open>nat\<close>.
  \<^item> A C array is a list read with \<open>!\<close>; the array \<^verbatim>\<open>fTracks\<close> is a list of optional
    tracks, \<open>None\<close> being a null slot, and a track pointer is the index of its slot.
  \<^item> A member function mutates the spectrometer object: it takes the object and returns
    the updated one, together with its \<^verbatim>\<open>Int_t\<close> return code where the code matters.
\<close>

subsection \<open>Data\<close>

text \<open>\<^verbatim>\<open>struct reconTerm { Double_t Coeff[4]; Int_t Exp[5]; }\<close>\<close>

record reconTerm =
  Coeff :: "real list"
  Exp :: "int list"

text \<open>The fields of a \<^verbatim>\<open>THaTrack\<close> that the two functions read or write.\<close>

record THaTrack =
  fX :: real
  fY :: real
  fTheta :: real
  fPhi :: real
  fTX :: real
  fTY :: real
  fTTheta :: real
  fTPhi :: real
  fDp :: real
  fP :: real
  fChi2 :: real
  fNDoF :: int
  fDedx :: real
  fBeta :: real
  fEnergy :: real
  fBetaChi2 :: real
  fFPTime :: real
  fNPMT :: int
  fGoodPlane3 :: int
  fGoodPlane4 :: int

text \<open>
  The members of the spectrometer object: the configuration read by \<^verbatim>\<open>ReadDatabase\<close>,
  the focal-plane rotation constants of \<^verbatim>\<open>InitializeReconstruction\<close>, the coefficient
  table, and the per-event members (\<^verbatim>\<open>fTracks\<close>, \<^verbatim>\<open>fNtracks\<close>, the golden track, the
  running minimum and the index of the good track). \<open>fSortTracks\<close> is the bit
  \<^verbatim>\<open>kSortTracks\<close> of \<^verbatim>\<open>fProperties\<close>, which \<^verbatim>\<open>GetTrSorting\<close> returns.
\<close>

record THcHallCSpectrometer =
  fReconTerms :: "reconTerm list"
  fAngSlope_x :: real
  fAngSlope_y :: real
  fAngOffset_x :: real
  fAngOffset_y :: real
  fDetOffset_x :: real
  fDetOffset_y :: real
  fZTrueFocus :: real
  fThetaOffset :: real
  fPhiOffset :: real
  fDeltaOffset :: real
  fThetaCentralOffset :: real
  fOopCentralOffset :: real
  fPCentralOffset :: real
  fPcentral :: real
  fTheta_lab :: real
  fPartMass :: real
  fSortTracks :: bool
  fSelUsingScin :: int
  fSelUsingPrune :: int
  fSelNDegreesMin :: real
  fSeldEdX1Min :: real
  fSeldEdX1Max :: real
  fSelBetaMin :: real
  fSelBetaMax :: real
  fSelEtMin :: real
  fSelEtMax :: real
  fNPlanes :: int
  fScin2XZpos :: real
  fScin2XdZpos :: real
  fScin2YZpos :: real
  fScin2YdZpos :: real
  fPruneXp :: real
  fPruneYp :: real
  fPruneYtar :: real
  fPruneDelta :: real
  fPruneBeta :: real
  fPruneDf :: real
  fPruneChiBeta :: real
  fPruneNPMT :: real
  fPruneFpTime :: real
  fTracks :: "THaTrack option list"
  fNtracks :: nat
  fGoldenTrack :: "nat option"
  fGoodTrack :: int
  fChi2Min :: real

subsection \<open>FindVertices\<close>

text \<open>
  The setters of \<^verbatim>\<open>THaTrack\<close> belong to the analyzer library. \<^verbatim>\<open>SetTarget\<close> takes
  its arguments in the order \<open>(x, y, theta, phi)\<close>; the source's own comment at the call
  says the same: the third argument is \<open>xptar\<close> (theta), although the offset added to it
  is named \<^verbatim>\<open>fPhiOffset\<close>.
\<close>

definition SetTarget :: "real \<Rightarrow> real \<Rightarrow> real \<Rightarrow> real \<Rightarrow> THaTrack \<Rightarrow> THaTrack" where
  "SetTarget x y theta phi t = t\<lparr>fTX := x, fTY := y, fTTheta := theta, fTPhi := phi\<rparr>"

definition SetDp :: "real \<Rightarrow> THaTrack \<Rightarrow> THaTrack" where
  "SetDp dp t = t\<lparr>fDp := dp\<rparr>"

definition SetMomentum :: "real \<Rightarrow> THaTrack \<Rightarrow> THaTrack" where
  "SetMomentum p t = t\<lparr>fP := p\<rparr>"

text \<open>\<^verbatim>\<open>hut[0..4]\<close>; the raster position \<^verbatim>\<open>gbeam_y\<close> is the constant 0.\<close>

definition hut :: "THcHallCSpectrometer \<Rightarrow> THaTrack \<Rightarrow> real list" where
  "hut s t =
     (let gbeam_y = 0 :: real in
      [fX t / 100 + fZTrueFocus s * fTheta t + fDetOffset_x s,
       fTheta t + fAngOffset_x s,
       fY t / 100 + fZTrueFocus s * fPhi t + fDetOffset_y s,
       fPhi t + fAngOffset_y s,
       - gbeam_y / 100])"

definition hut_rot :: "THcHallCSpectrometer \<Rightarrow> THaTrack \<Rightarrow> real list" where
  "hut_rot s t =
     (let h = hut s t in
      [h ! 0,
       h ! 1 + h ! 0 * fAngSlope_x s,
       h ! 2,
       h ! 3 + h ! 2 * fAngSlope_y s,
       h ! 4])"

text \<open>
  The inner loop over \<open>j\<close>: \<^verbatim>\<open>term\<close> starts at 1 and is multiplied by
  \<^verbatim>\<open>pow(hut_rot[j], Exp[j])\<close> only where the exponent is not zero.
\<close>

definition term_factor :: "real list \<Rightarrow> reconTerm \<Rightarrow> nat \<Rightarrow> real \<Rightarrow> real" where
  "term_factor hr rt j term =
     (if Exp rt ! j \<noteq> 0 then term * (hr ! j) powi (Exp rt ! j) else term)"

definition term_value :: "real list \<Rightarrow> reconTerm \<Rightarrow> real" where
  "term_value hr rt = fold (term_factor hr rt) [0..<5] 1"

text \<open>The loop over the terms: \<^verbatim>\<open>sum[k] += term * Coeff[k]\<close> for \<open>k = 0..3\<close>.\<close>

definition add_term :: "real list \<Rightarrow> reconTerm \<Rightarrow> real list \<Rightarrow> real list" where
  "add_term hr rt acc =
     (let term = term_value hr rt in
      fold (\<lambda>k sm. sm[k := sm ! k + term * Coeff rt ! k]) [0..<4] acc)"

definition cosy_sums :: "THcHallCSpectrometer \<Rightarrow> THaTrack \<Rightarrow> real list" where
  "cosy_sums s t = fold (add_term (hut_rot s t)) (fReconTerms s) [0, 0, 0, 0]"

text \<open>The body of the loop over the tracks: the results are written into the track.\<close>

definition transfer :: "THcHallCSpectrometer \<Rightarrow> real list \<Rightarrow> THaTrack \<Rightarrow> THaTrack" where
  "transfer s acc t =
     (let t1 = SetTarget 0 (acc ! 1 * 100) (acc ! 0 + fPhiOffset s) (acc ! 2 + fThetaOffset s) t;
          t2 = SetDp (acc ! 3 * 100 + fDeltaOffset s) t1
      in SetMomentum (fPcentral s * (1 + fDp t2 / 100)) t2)"

definition reconstruct_track :: "THcHallCSpectrometer \<Rightarrow> THaTrack \<Rightarrow> THaTrack" where
  "reconstruct_track s t = transfer s (cosy_sums s t) t"

text \<open>
  \<^verbatim>\<open>FindVertices(tracks)\<close>: sets \<^verbatim>\<open>fNtracks\<close> to the size of the array and rewrites
  every track; it returns 0. The source dereferences every slot without a test, so a null
  slot is outside the model (it is left as it is).
\<close>

definition FindVertices ::
  "THaTrack option list \<Rightarrow> THcHallCSpectrometer \<Rightarrow> int \<times> THaTrack option list \<times> THcHallCSpectrometer"
where
  "FindVertices tracks s =
     (0, map (map_option (reconstruct_track s)) tracks, s\<lparr>fNtracks := length tracks\<rparr>)"

text \<open>
  The polynomial the loops compute, written as the spec states it: for a term, the product
  over the five rotated coordinates, a zero exponent contributing the factor 1.
\<close>

definition monomial :: "real list \<Rightarrow> reconTerm \<Rightarrow> real" where
  "monomial hr rt = (\<Prod>j\<leftarrow>[0..<5]. if Exp rt ! j = 0 then 1 else (hr ! j) powi (Exp rt ! j))"

definition poly_sum :: "THcHallCSpectrometer \<Rightarrow> THaTrack \<Rightarrow> nat \<Rightarrow> real" where
  "poly_sum s t k = (\<Sum>rt\<leftarrow>fReconTerms s. Coeff rt ! k * monomial (hut_rot s t) rt)"

subsection \<open>TrackCalc: collaborators and helpers\<close>

text \<open>
  \<^verbatim>\<open>TClonesArray::At\<close>: the slot's pointer, null outside the array. A pointer to the
  track of slot \<open>i\<close> is the index \<open>i\<close>, and null where the slot is null.
\<close>

definition At :: "THaTrack option list \<Rightarrow> int \<Rightarrow> THaTrack option" where
  "At a i = (if 0 \<le> i \<and> nat i < length a then a ! nat i else None)"

definition track_ptr :: "THaTrack option list \<Rightarrow> int \<Rightarrow> nat option" where
  "track_ptr a i = (case At a i of None \<Rightarrow> None | Some t \<Rightarrow> Some (nat i))"

text \<open>\<^verbatim>\<open>GetChi2() / GetNDoF()\<close>, as every strategy computes it.\<close>

definition Chi2PerDeg :: "THaTrack \<Rightarrow> real" where
  "Chi2PerDeg t = fChi2 t / real_of_int (fNDoF t)"

text \<open>
  The hodoscope \<^verbatim>\<open>fHodo\<close> is a collaborator whose class is not part of this file: the
  model takes its accessors as they are called. \<open>GetGoodRawPad\<close> is total, as the
  accessor is: what it returns at an index past the event's hits is whatever the
  hodoscope holds there.
\<close>

record THcHodoscope =
  GetNPaddles :: "nat \<Rightarrow> nat"
  GetNScinHits :: "nat \<Rightarrow> nat"
  GetGoodRawPad :: "int \<Rightarrow> int"
  GetPlaneCenter :: "nat \<Rightarrow> real"
  GetPlaneSpacing :: "nat \<Rightarrow> real"
  GetStartTimeCenter :: real

text \<open>
  \<^verbatim>\<open>TMath::Nint\<close> of the ROOT library: the nearest integer, a half going to the even
  neighbour (\<^verbatim>\<open>int(x)\<close> truncates towards zero).
\<close>

definition Nint :: "real \<Rightarrow> int" where
  "Nint x =
     (if x \<ge> 0 then
        (let i = \<lfloor>x + 1 / 2\<rfloor> in if odd i \<and> x + 1 / 2 = of_int i then i - 1 else i)
      else
        (let i = \<lceil>x - 1 / 2\<rceil> in if odd i \<and> x - 1 / 2 = of_int i then i + 1 else i))"

text \<open>
  A write \<^verbatim>\<open>a[i] = v\<close> into a C array. Outside the array the program's behaviour is
  undefined; the model leaves the array as it is.
\<close>

definition store :: "'a list \<Rightarrow> int \<Rightarrow> 'a \<Rightarrow> 'a list" where
  "store a i v = (if 0 \<le> i \<and> nat i < length a then a[nat i := v] else a)"

subsection \<open>Strategy A: the first track, after sorting\<close>

text \<open>
  \<^verbatim>\<open>fTracks->Sort()\<close> belongs to the array class and compares by the tracks' own
  \<^verbatim>\<open>Compare\<close>; it is a parameter \<open>Sort\<close> of the model.
\<close>

definition sorted_first ::
  "(THaTrack option list \<Rightarrow> THaTrack option list) \<Rightarrow> THcHallCSpectrometer \<Rightarrow> THcHallCSpectrometer"
where
  "sorted_first Sort s =
     (let s1 = (if fSortTracks s then s\<lparr>fTracks := Sort (fTracks s)\<rparr> else s)
      in if fNtracks s1 > 0 then s1\<lparr>fGoldenTrack := track_ptr (fTracks s1) 0\<rparr>
         else s1\<lparr>fGoldenTrack := None\<rparr>)"

subsection \<open>Strategy B: selection using the scintillators\<close>

text \<open>
  The locals of \<^verbatim>\<open>TrackCalc\<close> that live across the loop over the tracks: the four
  arrays allocated at its start, the two running minima and the running hit index.
\<close>

record scin_work =
  fX2D :: "real list"
  fY2D :: "real list"
  f2XHits :: "int list"
  f2YHits :: "int list"
  fY2Dmin :: real
  fX2Dmin :: real
  fRawIndex :: int

text \<open>
  The arrays come from \<^verbatim>\<open>new\<close> and are not initialised; every slot the program reads
  has been written before, so the model starts them at 0. The scalars get the values the
  source assigns before the loop.
\<close>

definition new_work :: "THcHodoscope \<Rightarrow> THcHallCSpectrometer \<Rightarrow> scin_work" where
  "new_work h s =
     \<lparr>fX2D = replicate (fNtracks s) 0, fY2D = replicate (fNtracks s) 0,
      f2XHits = replicate (GetNPaddles h 2) 0, f2YHits = replicate (GetNPaddles h 3) 0,
      fY2Dmin = 100, fX2Dmin = 100, fRawIndex = - 1\<rparr>"

definition passes_ndof :: "THcHallCSpectrometer \<Rightarrow> THaTrack \<Rightarrow> bool" where
  "passes_ndof s t = (real_of_int (fNDoF t) > fSelNDegreesMin s)"

definition passes_range :: "THcHallCSpectrometer \<Rightarrow> THaTrack \<Rightarrow> bool" where
  "passes_range s t =
     (fDedx t > fSeldEdX1Min s \<and> fDedx t < fSeldEdX1Max s \<and>
      fBeta t > fSelBetaMin s \<and> fBeta t < fSelBetaMax s \<and>
      fEnergy t > fSelEtMin s \<and> fEnergy t < fSelEtMax s)"

text \<open>The two loops that set every mark to \<open>-1\<close>.\<close>

definition clear_marks :: "THcHodoscope \<Rightarrow> scin_work \<Rightarrow> scin_work" where
  "clear_marks h w =
     w\<lparr>f2XHits := replicate (GetNPaddles h 2) (- 1), f2YHits := replicate (GetNPaddles h 3) (- 1)\<rparr>"

text \<open>
  The walk over the planes and their hits. \<^verbatim>\<open>fRawIndex\<close> is incremented at every hit
  and is not reset: it was set to \<open>-1\<close> once, before the loop over the tracks.
\<close>

definition mark_hit :: "THcHodoscope \<Rightarrow> nat \<Rightarrow> scin_work \<Rightarrow> scin_work" where
  "mark_hit h ip w =
     (let w1 = w\<lparr>fRawIndex := fRawIndex w + 1\<rparr>;
          fGoodRawPad = GetGoodRawPad h (fRawIndex w1);
          w2 = (if ip = 2 then w1\<lparr>f2XHits := store (f2XHits w1) fGoodRawPad 0\<rparr> else w1)
      in if ip = 3 then w2\<lparr>f2YHits := store (f2YHits w2) fGoodRawPad 0\<rparr> else w2)"

definition mark_plane :: "THcHodoscope \<Rightarrow> nat \<Rightarrow> scin_work \<Rightarrow> scin_work" where
  "mark_plane h ip w = fold (\<lambda>ihit. mark_hit h ip) [0..<GetNScinHits h ip] w"

definition mark_hits :: "THcHallCSpectrometer \<Rightarrow> THcHodoscope \<Rightarrow> scin_work \<Rightarrow> scin_work" where
  "mark_hits s h w = fold (mark_plane h) [0..<nat (fNPlanes s)] w"

text \<open>
  The distance of the predicted paddle to the hit paddles: \<^verbatim>\<open>ft\<close> counts the marked
  paddles met so far and \<^verbatim>\<open>fZap\<close> is the running minimum, which the chain of tests
  updates for the first six marked paddles only.
\<close>

definition zap_update :: "real \<Rightarrow> real \<Rightarrow> real \<Rightarrow> real" where
  "zap_update ft d zap =
     (let z1 = (if ft = 1 then d else zap);
          z2 = (if ft = 2 \<and> d < z1 then d else z1);
          z3 = (if ft = 3 \<and> d < z2 then d else z2);
          z4 = (if ft = 4 \<and> d < z3 then d else z3);
          z5 = (if ft = 5 \<and> d < z4 then d else z4)
      in if ft = 6 \<and> d < z5 then d else z5)"

definition zap_step :: "int list \<Rightarrow> int \<Rightarrow> nat \<Rightarrow> real \<times> real \<Rightarrow> real \<times> real" where
  "zap_step hits fHitCnt i fz =
     (case fz of (ft, fZap) \<Rightarrow>
        if hits ! i = 0 then
          (let d = real_of_int \<bar>fHitCnt - int i - 1\<bar>; ft1 = ft + 1
           in (ft1, zap_update ft1 d fZap))
        else (ft, fZap))"

definition paddle_distance :: "int list \<Rightarrow> nat \<Rightarrow> int \<Rightarrow> real" where
  "paddle_distance hits npaddles fHitCnt = snd (fold (zap_step hits fHitCnt) [0..<npaddles] (0, 0))"

definition hit_counter4 :: "THcHallCSpectrometer \<Rightarrow> THcHodoscope \<Rightarrow> THaTrack \<Rightarrow> int" where
  "hit_counter4 s h t =
     (let hitpos4 = fY t + fPhi t * (fScin2YZpos s + 0.5 * fScin2YdZpos s);
          icounter4 = Nint ((GetPlaneCenter h 3 - hitpos4) / GetPlaneSpacing h 3) + 1
      in max (min icounter4 (int (GetNPaddles h 3))) 1)"

definition hit_counter3 :: "THcHallCSpectrometer \<Rightarrow> THcHodoscope \<Rightarrow> THaTrack \<Rightarrow> int" where
  "hit_counter3 s h t =
     (let hitpos3 = fX t + fTheta t * (fScin2XZpos s + 0.5 * fScin2XdZpos s);
          icounter3 = Nint ((hitpos3 - GetPlaneCenter h 2) / GetPlaneSpacing h 2) + 1
      in max (min icounter3 (int (GetNPaddles h 2))) 1)"

definition y_distance ::
  "THcHallCSpectrometer \<Rightarrow> THcHodoscope \<Rightarrow> THaTrack \<Rightarrow> nat \<Rightarrow> scin_work \<Rightarrow> scin_work" where
  "y_distance s h t itrack w =
     (let fHitCnt4 = hit_counter4 s h t;
          w1 = (if fNtracks s > 1
                then w\<lparr>fY2D := (fY2D w)[itrack := paddle_distance (f2YHits w) (GetNPaddles h 3) fHitCnt4]\<rparr>
                else w)
      in if fNtracks s = 1 then w1\<lparr>fY2D := (fY2D w1)[itrack := 0]\<rparr> else w1)"

definition x_distance ::
  "THcHallCSpectrometer \<Rightarrow> THcHodoscope \<Rightarrow> THaTrack \<Rightarrow> nat \<Rightarrow> scin_work \<Rightarrow> scin_work" where
  "x_distance s h t itrack w =
     (let fHitCnt3 = hit_counter3 s h t;
          w1 = (if fNtracks s > 1
                then w\<lparr>fX2D := (fX2D w)[itrack := paddle_distance (f2XHits w) (GetNPaddles h 2) fHitCnt3]\<rparr>
                else w)
      in if fNtracks s = 1 then w1\<lparr>fX2D := (fX2D w1)[itrack := 0]\<rparr> else w1)"

text \<open>The nested comparison that keeps the best track found so far.\<close>

definition select_track ::
  "nat \<Rightarrow> real \<Rightarrow> scin_work \<times> THcHallCSpectrometer \<Rightarrow> scin_work \<times> THcHallCSpectrometer" where
  "select_track itrack fChi2PerDeg ws =
     (case ws of (w, s) \<Rightarrow>
        if fY2D w ! itrack \<le> fY2Dmin w then
          (let w1 = (if fY2D w ! itrack < fY2Dmin w then w\<lparr>fX2Dmin := 100\<rparr> else w);
               s1 = (if fY2D w ! itrack < fY2Dmin w then s\<lparr>fChi2Min := 10000000000\<rparr> else s)
           in if fX2D w1 ! itrack \<le> fX2Dmin w1 then
                (let s2 = (if fX2D w1 ! itrack < fX2Dmin w1 then s1\<lparr>fChi2Min := 10000000000\<rparr> else s1)
                 in if fChi2PerDeg < fChi2Min s2 then
                      (w1\<lparr>fY2Dmin := fY2D w1 ! itrack, fX2Dmin := fX2D w1 ! itrack\<rparr>,
                       s2\<lparr>fGoodTrack := int itrack, fChi2Min := fChi2PerDeg,
                          fGoldenTrack := track_ptr (fTracks s2) (int itrack)\<rparr>)
                    else (w1, s2))
              else (w1, s1))
        else (w, s))"

text \<open>The body of the loop over the tracks, for the track \<open>t\<close> of slot \<open>itrack\<close>.\<close>

definition scin_track ::
  "THcHodoscope \<Rightarrow> nat \<Rightarrow> THaTrack \<Rightarrow> scin_work \<times> THcHallCSpectrometer \<Rightarrow>
   scin_work \<times> THcHallCSpectrometer" where
  "scin_track h itrack t ws =
     (case ws of (w, s) \<Rightarrow>
        if passes_ndof s t then
          (let fChi2PerDeg = Chi2PerDeg t
           in if passes_range s t then
                (let w1 = clear_marks h w;
                     w2 = mark_hits s h w1;
                     w3 = y_distance s h t itrack w2;
                     w4 = x_distance s h t itrack w3
                 in select_track itrack fChi2PerDeg (w4, s))
              else (w, s))
        else (w, s))"

text \<open>
  The loop itself: a null slot makes \<^verbatim>\<open>TrackCalc\<close> return \<open>-1\<close> at once. The first
  component is the value returned, if the loop returned.
\<close>

fun scin_loop ::
  "THcHodoscope \<Rightarrow> nat list \<Rightarrow> scin_work \<times> THcHallCSpectrometer \<Rightarrow>
   int option \<times> scin_work \<times> THcHallCSpectrometer" where
  "scin_loop h [] ws = (None, ws)"
| "scin_loop h (itrack # rest) ws =
     (case At (fTracks (snd ws)) (int itrack) of
        None \<Rightarrow> (Some (- 1), ws)
      | Some t \<Rightarrow> scin_loop h rest (scin_track h itrack t ws))"

text \<open>The second scan, run when no track was selected: the cut on \<^verbatim>\<open>NDoF\<close> only.\<close>

definition rescan_track :: "nat \<Rightarrow> THaTrack \<Rightarrow> THcHallCSpectrometer \<Rightarrow> THcHallCSpectrometer" where
  "rescan_track iitrack t s =
     (if passes_ndof s t then
        (let fChi2PerDeg = Chi2PerDeg t
         in if fChi2PerDeg < fChi2Min s then
              s\<lparr>fGoodTrack := int iitrack, fChi2Min := fChi2PerDeg,
                fGoldenTrack := track_ptr (fTracks s) (int iitrack)\<rparr>
            else s)
      else s)"

fun rescan_loop :: "nat list \<Rightarrow> THcHallCSpectrometer \<Rightarrow> int option \<times> THcHallCSpectrometer" where
  "rescan_loop [] s = (None, s)"
| "rescan_loop (iitrack # rest) s =
     (case At (fTracks s) (int iitrack) of
        None \<Rightarrow> (Some (- 1), s)
      | Some t \<Rightarrow> rescan_loop rest (rescan_track iitrack t s))"

text \<open>The block \<^verbatim>\<open>if ( fSelUsingScin == 1 )\<close>.\<close>

definition scin_select ::
  "THcHodoscope \<Rightarrow> scin_work \<Rightarrow> THcHallCSpectrometer \<Rightarrow>
   int option \<times> scin_work \<times> THcHallCSpectrometer" where
  "scin_select h w s =
     (if fNtracks s > 0 then
        (let s0 = s\<lparr>fChi2Min := 10000000000, fGoodTrack := - 1\<rparr>;
             w0 = w\<lparr>fY2Dmin := 100, fX2Dmin := 100, fRawIndex := - 1\<rparr>
         in case scin_loop h [0..<fNtracks s0] (w0, s0) of
              (Some rc, w1, s1) \<Rightarrow> (Some rc, w1, s1)
            | (None, w1, s1) \<Rightarrow>
                if fGoodTrack s1 = - 1 then
                  (case rescan_loop [0..<fNtracks s1] (s1\<lparr>fChi2Min := 10000000000\<rparr>) of
                     (r, s2) \<Rightarrow> (r, w1, s2))
                else (None, w1, s1))
      else (None, w, s\<lparr>fGoldenTrack := None\<rparr>))"

subsection \<open>Strategy C: pruning\<close>

text \<open>The nine assignments at the head of the block: each threshold is raised to its floor.\<close>

definition clamp_prune :: "THcHallCSpectrometer \<Rightarrow> THcHallCSpectrometer" where
  "clamp_prune s =
     s\<lparr>fPruneXp := max 0.08 (fPruneXp s),
       fPruneYp := max 0.04 (fPruneYp s),
       fPruneYtar := max 4.0 (fPruneYtar s),
       fPruneDelta := max 13.0 (fPruneDelta s),
       fPruneBeta := max 0.1 (fPruneBeta s),
       fPruneDf := max 1.0 (fPruneDf s),
       fPruneChiBeta := max 2.0 (fPruneChiBeta s),
       fPruneFpTime := max 5.0 (fPruneFpTime s),
       fPruneNPMT := max 6.0 (fPruneNPMT s)\<rparr>"

text \<open>
  The loop that fills \<^verbatim>\<open>testTracks\<close>: \<open>None\<close> when a slot is null, where the source
  returns \<open>-1\<close>.
\<close>

fun load_tracks :: "THaTrack option list \<Rightarrow> nat list \<Rightarrow> THaTrack list option" where
  "load_tracks a [] = Some []"
| "load_tracks a (ptrack # rest) =
     (case At a (int ptrack) of
        None \<Rightarrow> None
      | Some t \<Rightarrow> (case load_tracks a rest of None \<Rightarrow> None | Some ts \<Rightarrow> Some (t # ts)))"

text \<open>
  A cut of the pipeline, as the source writes it twice: the test that counts a track as
  good, the test that rejects a track, and the amount added to \<^verbatim>\<open>fReject\<close>.
\<close>

record prune_cut =
  good :: "THaTrack \<Rightarrow> bool"
  bad :: "THaTrack \<Rightarrow> bool"
  reject_code :: int

definition fBetaP :: "THcHallCSpectrometer \<Rightarrow> THaTrack \<Rightarrow> real" where
  "fBetaP s t = fP t / sqrt (fP t * fP t + fPartMass s * fPartMass s)"

definition prune_xptar :: "THcHallCSpectrometer \<Rightarrow> prune_cut" where
  "prune_xptar s =
     \<lparr>good = (\<lambda>t. \<bar>fTTheta t\<bar> < fPruneXp s), bad = (\<lambda>t. \<bar>fTTheta t\<bar> \<ge> fPruneXp s),
      reject_code = 1\<rparr>"

definition prune_yptar :: "THcHallCSpectrometer \<Rightarrow> prune_cut" where
  "prune_yptar s =
     \<lparr>good = (\<lambda>t. \<bar>fTPhi t\<bar> < fPruneYp s), bad = (\<lambda>t. \<bar>fTPhi t\<bar> \<ge> fPruneYp s),
      reject_code = 2\<rparr>"

definition prune_ytar :: "THcHallCSpectrometer \<Rightarrow> prune_cut" where
  "prune_ytar s =
     \<lparr>good = (\<lambda>t. \<bar>fTY t\<bar> < fPruneYtar s), bad = (\<lambda>t. \<bar>fTY t\<bar> \<ge> fPruneYtar s),
      reject_code = 10\<rparr>"

definition prune_delta :: "THcHallCSpectrometer \<Rightarrow> prune_cut" where
  "prune_delta s =
     \<lparr>good = (\<lambda>t. \<bar>fDp t\<bar> < fPruneDelta s), bad = (\<lambda>t. \<bar>fDp t\<bar> \<ge> fPruneDelta s),
      reject_code = 20\<rparr>"

definition prune_beta :: "THcHallCSpectrometer \<Rightarrow> prune_cut" where
  "prune_beta s =
     \<lparr>good = (\<lambda>t. \<bar>fBeta t - fBetaP s t\<bar> < fPruneBeta s),
      bad = (\<lambda>t. \<bar>fBeta t - fBetaP s t\<bar> \<ge> fPruneBeta s),
      reject_code = 100\<rparr>"

definition prune_df :: "THcHallCSpectrometer \<Rightarrow> prune_cut" where
  "prune_df s =
     \<lparr>good = (\<lambda>t. real_of_int (fNDoF t) \<ge> fPruneDf s),
      bad = (\<lambda>t. real_of_int (fNDoF t) < fPruneDf s),
      reject_code = 200\<rparr>"

definition prune_npmt :: "THcHallCSpectrometer \<Rightarrow> prune_cut" where
  "prune_npmt s =
     \<lparr>good = (\<lambda>t. real_of_int (fNPMT t) \<ge> fPruneNPMT s),
      bad = (\<lambda>t. real_of_int (fNPMT t) < fPruneNPMT s),
      reject_code = 100000\<rparr>"

definition prune_chibeta :: "THcHallCSpectrometer \<Rightarrow> prune_cut" where
  "prune_chibeta s =
     \<lparr>good = (\<lambda>t. fBetaChi2 t < fPruneChiBeta s \<and> fBetaChi2 t > 0.01),
      bad = (\<lambda>t. fBetaChi2 t \<ge> fPruneChiBeta s \<or> fBetaChi2 t \<le> 0.01),
      reject_code = 1000\<rparr>"

definition prune_fptime :: "THcHallCSpectrometer \<Rightarrow> THcHodoscope \<Rightarrow> prune_cut" where
  "prune_fptime s h =
     \<lparr>good = (\<lambda>t. \<bar>fFPTime t - GetStartTimeCenter h\<bar> < fPruneFpTime s),
      bad = (\<lambda>t. \<bar>fFPTime t - GetStartTimeCenter h\<bar> \<ge> fPruneFpTime s),
      reject_code = 2000\<rparr>"

definition prune_y2 :: prune_cut where
  "prune_y2 =
     \<lparr>good = (\<lambda>t. fGoodPlane4 t = 1), bad = (\<lambda>t. fGoodPlane4 t \<noteq> 1), reject_code = 10000\<rparr>"

definition prune_x2 :: prune_cut where
  "prune_x2 =
     \<lparr>good = (\<lambda>t. fGoodPlane3 t = 1), bad = (\<lambda>t. fGoodPlane3 t \<noteq> 1), reject_code = 20000\<rparr>"

text \<open>The cuts in the order of the source.\<close>

definition prune_cuts :: "THcHallCSpectrometer \<Rightarrow> THcHodoscope \<Rightarrow> prune_cut list" where
  "prune_cuts s h =
     [prune_xptar s, prune_yptar s, prune_ytar s, prune_delta s, prune_beta s, prune_df s,
      prune_npmt s, prune_chibeta s, prune_fptime s h, prune_y2, prune_x2]"

text \<open>
  One cut: the first loop counts in \<^verbatim>\<open>fNGood\<close> the tracks that are good and still
  kept; the second loop, run when the count is positive, rejects every bad track.
\<close>

definition count_good :: "prune_cut \<Rightarrow> THaTrack list \<Rightarrow> nat \<Rightarrow> bool list \<Rightarrow> int" where
  "count_good c testTracks n fKeep =
     fold (\<lambda>ptrack fNGood. if good c (testTracks ! ptrack) \<and> fKeep ! ptrack then fNGood + 1 else fNGood)
       [0..<n] 0"

definition reject_bad ::
  "prune_cut \<Rightarrow> THaTrack list \<Rightarrow> nat \<Rightarrow> bool list \<times> int list \<Rightarrow> bool list \<times> int list" where
  "reject_bad c testTracks n kr =
     fold (\<lambda>ptrack kr1.
             if bad c (testTracks ! ptrack)
             then ((fst kr1)[ptrack := False], (snd kr1)[ptrack := snd kr1 ! ptrack + reject_code c])
             else kr1)
       [0..<n] kr"

definition soft_cut ::
  "THaTrack list \<Rightarrow> nat \<Rightarrow> prune_cut \<Rightarrow> bool list \<times> int list \<Rightarrow> bool list \<times> int list" where
  "soft_cut testTracks n c kr =
     (if count_good c testTracks n (fst kr) > 0 then reject_bad c testTracks n kr else kr)"

text \<open>\<^verbatim>\<open>fKeep\<close> and \<^verbatim>\<open>fReject\<close> after the given cuts, from all tracks kept.\<close>

definition prune_pipeline ::
  "prune_cut list \<Rightarrow> THaTrack list \<Rightarrow> nat \<Rightarrow> bool list \<times> int list" where
  "prune_pipeline cuts testTracks n =
     fold (soft_cut testTracks n) cuts (replicate n True, replicate n 0)"

text \<open>The last loop: the kept track of smallest \<^verbatim>\<open>fChi2PerDeg\<close> below \<^verbatim>\<open>fChi2Min\<close>.\<close>

definition pick_best ::
  "THaTrack list \<Rightarrow> bool list \<Rightarrow> nat \<Rightarrow> THcHallCSpectrometer \<Rightarrow> THcHallCSpectrometer" where
  "pick_best testTracks fKeep ptrack s =
     (let fChi2PerDeg = Chi2PerDeg (testTracks ! ptrack)
      in if fChi2PerDeg < fChi2Min s \<and> fKeep ! ptrack
         then s\<lparr>fGoodTrack := int ptrack, fChi2Min := fChi2PerDeg\<rparr>
         else s)"

text \<open>The block \<^verbatim>\<open>if ( fSelUsingPrune == 1 )\<close>.\<close>

definition prune_select ::
  "THcHodoscope \<Rightarrow> THcHallCSpectrometer \<Rightarrow> int option \<times> THcHallCSpectrometer" where
  "prune_select h s =
     (let s1 = clamp_prune s
      in if fNtracks s1 > 0 then
           (let s2 = s1\<lparr>fChi2Min := 10000000000, fGoodTrack := 0\<rparr>
            in case load_tracks (fTracks s2) [0..<fNtracks s2] of
                 None \<Rightarrow> (Some (- 1), s2)
               | Some testTracks \<Rightarrow>
                   (let kr = prune_pipeline (prune_cuts s2 h) testTracks (fNtracks s2);
                        s3 = fold (pick_best testTracks (fst kr)) [0..<fNtracks s2] s2
                    in (None, s3\<lparr>fGoldenTrack := track_ptr (fTracks s3) (fGoodTrack s3)\<rparr>)))
         else (None, s1\<lparr>fGoldenTrack := None\<rparr>))"

subsection \<open>TrackCalc\<close>

definition TrackTimes :: "THcHallCSpectrometer \<Rightarrow> int" where
  "TrackTimes s = 0"

text \<open>
  The three blocks in sequence, each behind its own test of the two flags, then
  \<^verbatim>\<open>return TrackTimes( fTracks )\<close>. The result is the value returned and the object as
  the call leaves it.
\<close>

definition TrackCalc ::
  "(THaTrack option list \<Rightarrow> THaTrack option list) \<Rightarrow> THcHodoscope \<Rightarrow> THcHallCSpectrometer \<Rightarrow>
   int \<times> THcHallCSpectrometer" where
  "TrackCalc Sort h s =
     (let w = new_work h s;
          s1 = (if fSelUsingScin s = 0 \<and> fSelUsingPrune s = 0 then sorted_first Sort s else s)
      in case (if fSelUsingScin s1 = 1 then scin_select h w s1 else (None, w, s1)) of
           (Some rc, w2, s2) \<Rightarrow> (rc, s2)
         | (None, w2, s2) \<Rightarrow>
             (case (if fSelUsingPrune s2 = 1 then prune_select h s2 else (None, s2)) of
                (Some rc, s3) \<Rightarrow> (rc, s3)
              | (None, s3) \<Rightarrow> (TrackTimes s3, s3)))"

subsection \<open>Notions used in the statements and in the proofs\<close>

text \<open>
  A track qualifies for Strategy B when it passes the cut on \<^verbatim>\<open>NDoF\<close> and the range
  cuts on \<^verbatim>\<open>dedx\<close>, \<^verbatim>\<open>beta\<close> and the energy: the two nested tests of the loop.
\<close>

definition qualifies :: "THcHallCSpectrometer \<Rightarrow> THaTrack \<Rightarrow> bool" where
  "qualifies s t \<longleftrightarrow> passes_ndof s t \<and> passes_range s t"

text \<open>
  The composite score of the track of slot \<open>j\<close>: its Y-plane distance, its X-plane
  distance and its chi-square per degree of freedom, read from the work arrays. Scores are
  compared lexicographically.
\<close>

definition score :: "THaTrack list \<Rightarrow> scin_work \<Rightarrow> nat \<Rightarrow> real \<times> real \<times> real" where
  "score ts w j = (fY2D w ! j, fX2D w ! j, Chi2PerDeg (ts ! j))"

definition score_le :: "real \<times> real \<times> real \<Rightarrow> real \<times> real \<times> real \<Rightarrow> bool" where
  "score_le a b \<longleftrightarrow>
     (case a of (y, x, c) \<Rightarrow> case b of (y', x', c') \<Rightarrow>
        y < y' \<or> (y = y' \<and> (x < x' \<or> (x = x' \<and> c \<le> c'))))"

definition score_less :: "real \<times> real \<times> real \<Rightarrow> real \<times> real \<times> real \<Rightarrow> bool" where
  "score_less a b \<longleftrightarrow>
     (case a of (y, x, c) \<Rightarrow> case b of (y', x', c') \<Rightarrow>
        y < y' \<or> (y = y' \<and> (x < x' \<or> (x = x' \<and> c < c'))))"

text \<open>What the block of Strategy B returns when run on the fresh work arrays.\<close>

definition scin_result ::
  "THcHodoscope \<Rightarrow> THcHallCSpectrometer \<Rightarrow> int option \<times> scin_work \<times> THcHallCSpectrometer" where
  "scin_result h s = scin_select h (new_work h s) s"

text \<open>
  The configuration of a spectrometer object: the object with its five per-event members
  blanked, so that two objects have the same configuration when they agree on every other
  member.
\<close>

definition configuration :: "THcHallCSpectrometer \<Rightarrow> THcHallCSpectrometer" where
  "configuration s =
     s\<lparr>fTracks := [], fNtracks := 0, fGoldenTrack := None, fGoodTrack := 0, fChi2Min := 0\<rparr>"

text \<open>
  Two objects that differ at most in the three members a selection writes: the index of
  the good track, the running minimum and the golden track.
\<close>

definition sel_eq :: "THcHallCSpectrometer \<Rightarrow> THcHallCSpectrometer \<Rightarrow> bool" where
  "sel_eq s s' \<longleftrightarrow>
     s' = s\<lparr>fGoodTrack := fGoodTrack s', fChi2Min := fChi2Min s', fGoldenTrack := fGoldenTrack s'\<rparr>"

text \<open>
  The part of the body of Strategy B's loop that computes the two distances of a track,
  and the members of the work record that the marking of the hits leaves alone.
\<close>

definition distances ::
  "THcHallCSpectrometer \<Rightarrow> THcHodoscope \<Rightarrow> nat \<Rightarrow> THaTrack \<Rightarrow> scin_work \<Rightarrow> scin_work" where
  "distances s h i t w = x_distance s h t i (y_distance s h t i (mark_hits s h (clear_marks h w)))"

definition dist_part :: "scin_work \<Rightarrow> real list \<times> real list \<times> real \<times> real" where
  "dist_part w = (fX2D w, fY2D w, fY2Dmin w, fX2Dmin w)"

text \<open>The first \<open>k\<close> rounds of Strategy B's loop on an array without null slot.\<close>

definition scin_steps ::
  "THcHodoscope \<Rightarrow> THaTrack list \<Rightarrow> nat \<Rightarrow> scin_work \<times> THcHallCSpectrometer \<Rightarrow>
   scin_work \<times> THcHallCSpectrometer" where
  "scin_steps h ts k ws = fold (\<lambda>i. scin_track h i (ts ! i)) [0..<k] ws"

text \<open>
  The invariant of that loop after \<open>k\<close> rounds: while no qualifying track has been met the
  minima hold their initial values; afterwards the good track is a qualifying track whose
  score is the current minimum and is least among the qualifying tracks met so far.
\<close>

definition scin_inv ::
  "THcHallCSpectrometer \<Rightarrow> THaTrack list \<Rightarrow> nat \<Rightarrow> scin_work \<times> THcHallCSpectrometer \<Rightarrow> bool" where
  "scin_inv s0 ts k ws \<longleftrightarrow>
     (case ws of (w, s) \<Rightarrow>
        if \<forall>j<k. \<not> qualifies s0 (ts ! j)
        then fGoodTrack s = - 1 \<and> fY2Dmin w = 100 \<and> fX2Dmin w = 100 \<and> fChi2Min s = 10000000000
        else (\<exists>g<k. qualifies s0 (ts ! g) \<and> fGoodTrack s = int g \<and> fGoldenTrack s = Some g \<and>
                (fY2Dmin w, fX2Dmin w, fChi2Min s) = score ts w g \<and>
                (\<forall>j<k. qualifies s0 (ts ! j) \<longrightarrow> score_le (score ts w g) (score ts w j))))"

text \<open>The first \<open>k\<close> rounds of Strategy C's last loop.\<close>

definition best_steps ::
  "THaTrack list \<Rightarrow> bool list \<Rightarrow> nat \<Rightarrow> THcHallCSpectrometer \<Rightarrow> THcHallCSpectrometer" where
  "best_steps ts keep k s = fold (pick_best ts keep) [0..<k] s"

subsection \<open>Concrete events\<close>

text \<open>
  A track, a hodoscope and a spectrometer with every member zero (no tracks, no hits, an
  empty coefficient table); the concrete events below are updates of them.
\<close>

definition zero_track :: THaTrack where
  "zero_track =
     \<lparr>fX = 0, fY = 0, fTheta = 0, fPhi = 0, fTX = 0, fTY = 0, fTTheta = 0, fTPhi = 0,
      fDp = 0, fP = 0, fChi2 = 0, fNDoF = 0, fDedx = 0, fBeta = 0, fEnergy = 0,
      fBetaChi2 = 0, fFPTime = 0, fNPMT = 0, fGoodPlane3 = 0, fGoodPlane4 = 0\<rparr>"

definition zero_hodoscope :: THcHodoscope where
  "zero_hodoscope =
     \<lparr>GetNPaddles = (\<lambda>ip. 0), GetNScinHits = (\<lambda>ip. 0), GetGoodRawPad = (\<lambda>i. 0),
      GetPlaneCenter = (\<lambda>ip. 0), GetPlaneSpacing = (\<lambda>ip. 0), GetStartTimeCenter = 0\<rparr>"

definition zero_spectrometer :: THcHallCSpectrometer where
  "zero_spectrometer =
     \<lparr>fReconTerms = [], fAngSlope_x = 0, fAngSlope_y = 0, fAngOffset_x = 0, fAngOffset_y = 0,
      fDetOffset_x = 0, fDetOffset_y = 0, fZTrueFocus = 0, fThetaOffset = 0, fPhiOffset = 0,
      fDeltaOffset = 0, fThetaCentralOffset = 0, fOopCentralOffset = 0, fPCentralOffset = 0,
      fPcentral = 0, fTheta_lab = 0, fPartMass = 0, fSortTracks = False, fSelUsingScin = 0,
      fSelUsingPrune = 0, fSelNDegreesMin = 0, fSeldEdX1Min = 0, fSeldEdX1Max = 0,
      fSelBetaMin = 0, fSelBetaMax = 0, fSelEtMin = 0, fSelEtMax = 0, fNPlanes = 0,
      fScin2XZpos = 0, fScin2XdZpos = 0, fScin2YZpos = 0, fScin2YdZpos = 0, fPruneXp = 0,
      fPruneYp = 0, fPruneYtar = 0, fPruneDelta = 0, fPruneBeta = 0, fPruneDf = 0,
      fPruneChiBeta = 0, fPruneNPMT = 0, fPruneFpTime = 0, fTracks = [], fNtracks = 0,
      fGoldenTrack = None, fGoodTrack = 0, fChi2Min = 0\<rparr>"

text \<open>
  The table with the single term of coefficients \<open>[1, 0, 0, 0]\<close> and exponents
  \<open>[1, 0, 0, 0, 0]\<close>, all offsets zero, and a track at focal-plane \<open>x = 2\<close>.
\<close>

definition single_term :: reconTerm where
  "single_term = \<lparr>Coeff = [1, 0, 0, 0], Exp = [1, 0, 0, 0, 0]\<rparr>"

definition single_term_spectrometer :: THcHallCSpectrometer where
  "single_term_spectrometer = zero_spectrometer\<lparr>fReconTerms := [single_term]\<rparr>"

definition track_x2 :: THaTrack where
  "track_x2 = zero_track\<lparr>fX := 2\<rparr>"

text \<open>
  An event: the object \<open>s\<close> as \<^verbatim>\<open>FindVertices\<close> leaves it for the tracks \<open>ts\<close>, none
  of them a null slot.
\<close>

definition event :: "THcHallCSpectrometer \<Rightarrow> THaTrack list \<Rightarrow> THcHallCSpectrometer" where
  "event s ts = s\<lparr>fTracks := map Some ts, fNtracks := length ts\<rparr>"

text \<open>
  A track of chi-square per degree of freedom \<open>c\<close> (one degree of freedom) that passes
  the range cuts of the configurations below, and the same track at target angle
  \<open>theta = 1\<close>, outside every \<open>xptar\<close> window.
\<close>

definition chi_track :: "real \<Rightarrow> THaTrack" where
  "chi_track c = zero_track\<lparr>fChi2 := c, fNDoF := 1, fDedx := 1, fBeta := 1, fEnergy := 1, fP := 1\<rparr>"

definition wide_track :: THaTrack where
  "wide_track = (chi_track 1)\<lparr>fTTheta := 1\<rparr>"

text \<open>
  A configuration with scintillator mode on (four planes, every range cut \<open>(0, 2)\<close>, the
  cut on \<^verbatim>\<open>NDoF\<close> at 0) and one with prune mode on (every threshold below its floor).
\<close>

definition scin_spectrometer :: THcHallCSpectrometer where
  "scin_spectrometer =
     zero_spectrometer\<lparr>fSelUsingScin := 1, fSeldEdX1Max := 2, fSelBetaMax := 2, fSelEtMax := 2,
       fNPlanes := 4\<rparr>"

definition prune_spectrometer :: THcHallCSpectrometer where
  "prune_spectrometer = zero_spectrometer\<lparr>fSelUsingPrune := 1\<rparr>"

text \<open>
  Two hodoscopes of four paddles a plane, centred at 0 with spacing 1. The first has one
  hit, on paddle 0 of plane 2 (the X plane); past that hit its accessor returns paddle 3.
  The second has one hit, on paddle 2 of plane 3 (the Y plane), and its accessor returns
  paddle 2 at every index.
\<close>

definition hodo_x_hit :: THcHodoscope where
  "hodo_x_hit =
     \<lparr>GetNPaddles = (\<lambda>ip. 4), GetNScinHits = (\<lambda>ip. if ip = 2 then 1 else 0),
      GetGoodRawPad = (\<lambda>i. if i = 0 then 0 else 3),
      GetPlaneCenter = (\<lambda>ip. 0), GetPlaneSpacing = (\<lambda>ip. 1), GetStartTimeCenter = 0\<rparr>"

definition hodo_y_hit :: THcHodoscope where
  "hodo_y_hit =
     \<lparr>GetNPaddles = (\<lambda>ip. 4), GetNScinHits = (\<lambda>ip. if ip = 3 then 1 else 0),
      GetGoodRawPad = (\<lambda>i. 2),
      GetPlaneCenter = (\<lambda>ip. 0), GetPlaneSpacing = (\<lambda>ip. 1), GetStartTimeCenter = 0\<rparr>"

text \<open>
  Two sorting routines for the parameter \<open>Sort\<close>: one that leaves the array as it is, and
  a stable sort by chi-square per degree of freedom of an array without null slot.
\<close>

definition no_sort :: "THaTrack option list \<Rightarrow> THaTrack option list" where
  "no_sort a = a"

definition chi_sort :: "THaTrack option list \<Rightarrow> THaTrack option list" where
  "chi_sort a = map Some (sort_key Chi2PerDeg (map the a))"

text \<open>
  Events of Strategy A: two tracks in descending order of chi-square, sorting on.
\<close>

definition sort_tracks :: "THaTrack list" where
  "sort_tracks = [chi_track 3, chi_track 1]"

definition sort_event :: THcHallCSpectrometer where
  "sort_event = (event zero_spectrometer sort_tracks)\<lparr>fSortTracks := True\<rparr>"

text \<open>
  Events of Strategy B. In the first two the second track is predicted on the hit paddle
  of the Y plane and the first two paddles away; in \<open>sentinel_tracks\<close> the second track
  has a chi-square per degree of freedom of \<open>2 * 10^10\<close>. Then a single track; a
  qualifying track with a track of no degree of freedom; twice the same track; and one
  track under a cut on \<^verbatim>\<open>NDoF\<close> that it fails, with the golden track still set to slot 0.
\<close>

definition lexmin_tracks :: "THaTrack list" where
  "lexmin_tracks = [chi_track 5, (chi_track 3)\<lparr>fY := - 2\<rparr>]"

definition sentinel_tracks :: "THaTrack list" where
  "sentinel_tracks = [chi_track 1, (chi_track 20000000000)\<lparr>fY := - 2\<rparr>]"

definition single_tracks :: "THaTrack list" where
  "single_tracks = [chi_track 1]"

definition one_of_two_tracks :: "THaTrack list" where
  "one_of_two_tracks = [chi_track 1, zero_track]"

definition twin_tracks :: "THaTrack list" where
  "twin_tracks = [chi_track 1, chi_track 1]"

definition stale_event :: THcHallCSpectrometer where
  "stale_event =
     (event (scin_spectrometer\<lparr>fSelNDegreesMin := 5\<rparr>) [chi_track 1])\<lparr>fGoldenTrack := Some 0\<rparr>"

text \<open>
  Events of Strategy C: a track outside the \<open>xptar\<close> window followed by a track inside
  it, whose chi-square per degree of freedom is 2, or \<open>2 * 10^10\<close>, or which lies outside
  the \<open>yptar\<close> window; and the first of these events with both modes on.
\<close>

definition prune_tracks :: "THaTrack list" where
  "prune_tracks = [wide_track, chi_track 2]"

definition prune_sentinel_tracks :: "THaTrack list" where
  "prune_sentinel_tracks = [wide_track, chi_track 20000000000]"

definition skip_tracks :: "THaTrack list" where
  "skip_tracks = [wide_track, (chi_track 2)\<lparr>fTPhi := 1\<rparr>]"

definition both_event :: THcHallCSpectrometer where
  "both_event = event (scin_spectrometer\<lparr>fSelUsingPrune := 1\<rparr>) prune_tracks"

section \<open>Properties\<close>

subsection \<open>The target transform\<close>

lemma term_value_monomial: "term_value hr rt = monomial hr rt"
  by (simp add: term_value_def monomial_def term_factor_def upt_rec [of _ 5]
      upt_rec [of _ "Suc _"] numeral_eq_Suc)

lemma add_term_nth:
  "length acc = 4 \<Longrightarrow> k < 4 \<Longrightarrow> add_term hr rt acc ! k = acc ! k + term_value hr rt * Coeff rt ! k"
  by (auto simp add: add_term_def Let_def numeral_eq_Suc upt_rec [of _ "Suc _"]
      nth_list_update less_Suc_eq)

lemma add_term_length: "length (add_term hr rt acc) = length acc"
  by (simp add: add_term_def Let_def numeral_eq_Suc upt_rec [of _ "Suc _"])

lemma fold_add_term_nth:
  "length acc = 4 \<Longrightarrow> k < 4 \<Longrightarrow>
   fold (add_term hr) rts acc ! k = acc ! k + (\<Sum>rt\<leftarrow>rts. Coeff rt ! k * monomial hr rt)"
proof (induction rts arbitrary: acc)
  case Nil
  then show ?case by simp
next
  case (Cons rt rts)
  then show ?case
    by (simp add: add_term_nth add_term_length term_value_monomial algebra_simps)
qed

lemma cosy_sums_nth: "k < 4 \<Longrightarrow> cosy_sums s t ! k = poly_sum s t k"
  unfolding cosy_sums_def poly_sum_def
  by (subst fold_add_term_nth) (auto simp: less_Suc_eq numeral_eq_Suc)

lemmas reconstruct_defs =
  reconstruct_track_def transfer_def SetTarget_def SetDp_def SetMomentum_def Let_def

lemma hut_rot_x: "hut_rot s t ! 0 = fX t / 100 + fZTrueFocus s * fTheta t + fDetOffset_x s"
  by (simp add: hut_rot_def hut_def Let_def)

lemma monomial_single_term: "monomial hr single_term = hr ! 0"
  by (simp add: monomial_def single_term_def upt_rec [of _ 5] upt_rec [of _ "Suc _"]
      numeral_eq_Suc)

lemma poly_sum_single_term:
  "fReconTerms s = [single_term] \<Longrightarrow>
   poly_sum s t k = Coeff single_term ! k * hut_rot s t ! 0"
  by (simp add: poly_sum_def monomial_single_term)

text \<open>
  Claim C1, as amended. \<^verbatim>\<open>FindVertices\<close> rewrites every track of the array, and for
  every track, with \<open>sum[k]\<close> the sum over the terms of the \<open>k\<close>-th coefficient times the
  product of the five rotated coordinates raised to the term's exponents (a zero exponent
  contributing the factor 1): target-y is \<open>100 * sum[1]\<close>, target-theta is
  \<open>sum[0] + fPhiOffset\<close>, target-phi is \<open>sum[2] + fThetaOffset\<close>, the momentum deviation
  is \<open>100 * sum[3] + fDeltaOffset\<close> and the momentum is
  \<open>fPcentral * (1 + deviation / 100)\<close>. For the single-term table with zero offsets, the
  track at focal-plane \<open>x = 2\<close> gets target-theta \<open>2 / 100\<close> and target-phi 0.
\<close>

theorem FindVertices_target:
  "FindVertices (map Some ts) s =
     (0, map (\<lambda>t. Some (reconstruct_track s t)) ts, s\<lparr>fNtracks := length ts\<rparr>)
   \<and> fTY (reconstruct_track s t) = 100 * poly_sum s t 1
   \<and> fTTheta (reconstruct_track s t) = poly_sum s t 0 + fPhiOffset s
   \<and> fTPhi (reconstruct_track s t) = poly_sum s t 2 + fThetaOffset s
   \<and> fDp (reconstruct_track s t) = 100 * poly_sum s t 3 + fDeltaOffset s
   \<and> fP (reconstruct_track s t) = fPcentral s * (1 + fDp (reconstruct_track s t) / 100)
   \<and> fTTheta (reconstruct_track single_term_spectrometer track_x2) = 2 / 100
   \<and> fTPhi (reconstruct_track single_term_spectrometer track_x2) = 0"
proof -
  have st: "fReconTerms single_term_spectrometer = [single_term]"
    by (simp add: single_term_spectrometer_def)
  have x: "hut_rot single_term_spectrometer track_x2 ! 0 = 2 / 100"
    by (simp add: hut_rot_x single_term_spectrometer_def zero_spectrometer_def track_x2_def
        zero_track_def)
  have off: "fPhiOffset single_term_spectrometer = 0" "fThetaOffset single_term_spectrometer = 0"
    by (simp_all add: single_term_spectrometer_def zero_spectrometer_def)
  have "fTTheta (reconstruct_track single_term_spectrometer track_x2) = 2 / 100"
    by (simp add: reconstruct_defs cosy_sums_nth poly_sum_single_term [OF st] x off
        single_term_def)
  moreover have "fTPhi (reconstruct_track single_term_spectrometer track_x2) = 0"
    by (simp add: reconstruct_defs cosy_sums_nth poly_sum_single_term [OF st] x off
        single_term_def)
  moreover have "FindVertices (map Some ts) s =
     (0, map (\<lambda>t. Some (reconstruct_track s t)) ts, s\<lparr>fNtracks := length ts\<rparr>)"
    by (simp add: FindVertices_def comp_def)
  ultimately show ?thesis
    by (simp add: reconstruct_defs cosy_sums_nth)
qed

text \<open>
  Claim C1, as stated, fails at its own example: the sum of index 0 goes to target-theta,
  so the target-phi of the track at \<open>x = 2\<close> is not \<open>2 / 100\<close>.
\<close>

theorem single_term_target_phi:
  "fTPhi (reconstruct_track single_term_spectrometer track_x2) \<noteq> 2 / 100"
proof -
  have st: "fReconTerms single_term_spectrometer = [single_term]"
    by (simp add: single_term_spectrometer_def)
  have off: "fThetaOffset single_term_spectrometer = 0"
    by (simp add: single_term_spectrometer_def zero_spectrometer_def)
  have "fTPhi (reconstruct_track single_term_spectrometer track_x2) = 0"
    by (simp add: reconstruct_defs cosy_sums_nth poly_sum_single_term [OF st] off
        single_term_def)
  then show ?thesis by simp
qed

subsection \<open>Selections write three members only\<close>

lemma sel_eq_refl [simp]: "sel_eq s s"
  by (simp add: sel_eq_def)

lemma sel_eqI: "s' = s\<lparr>fGoodTrack := g, fChi2Min := c, fGoldenTrack := p\<rparr> \<Longrightarrow> sel_eq s s'"
  by (simp add: sel_eq_def)

lemma sel_eqE:
  assumes "sel_eq s s'"
  obtains g c p where "s' = s\<lparr>fGoodTrack := g, fChi2Min := c, fGoldenTrack := p\<rparr>"
  using assms unfolding sel_eq_def by blast

lemma sel_eq_trans: "sel_eq s s' \<Longrightarrow> sel_eq s' s'' \<Longrightarrow> sel_eq s s''"
  by (elim sel_eqE) (auto intro!: sel_eqI)

lemma sel_eq_upd [simp]:
  "sel_eq s (s\<lparr>fGoodTrack := g\<rparr>)" "sel_eq s (s\<lparr>fChi2Min := c\<rparr>)" "sel_eq s (s\<lparr>fGoldenTrack := p\<rparr>)"
  by (simp_all add: sel_eq_def)

lemma sel_eq_fields:
  assumes "sel_eq s s'"
  shows "fTracks s' = fTracks s" "fNtracks s' = fNtracks s"
    "fSelUsingScin s' = fSelUsingScin s" "fSelUsingPrune s' = fSelUsingPrune s"
    "fNPlanes s' = fNPlanes s" "fSortTracks s' = fSortTracks s"
    "passes_ndof s' = passes_ndof s" "passes_range s' = passes_range s"
    "hit_counter3 s' = hit_counter3 s" "hit_counter4 s' = hit_counter4 s"
    "prune_cuts s' = prune_cuts s"
  using assms
  by (elim sel_eqE; simp add: passes_ndof_def passes_range_def hit_counter3_def hit_counter4_def
      prune_cuts_def prune_xptar_def prune_yptar_def prune_ytar_def prune_delta_def prune_beta_def
      prune_df_def prune_npmt_def prune_chibeta_def prune_fptime_def fBetaP_def fun_eq_iff)+

lemma select_track_frame: "sel_eq s (snd (select_track i c (w, s)))"
  by (auto simp: select_track_def Let_def intro!: sel_eqI split: if_splits)

lemma scin_track_frame: "sel_eq s (snd (scin_track h i t (w, s)))"
  by (simp add: scin_track_def Let_def select_track_frame)

lemma rescan_track_frame: "sel_eq s (rescan_track i t s)"
  by (simp add: rescan_track_def Let_def sel_eq_def)

lemma fold_keeps: "(\<And>x a. g (f x a) = g a) \<Longrightarrow> g (fold f xs a) = g a"
  by (induction xs arbitrary: a) auto

lemma mark_hit_keeps: "dist_part (mark_hit h ip w) = dist_part w"
  by (simp add: mark_hit_def dist_part_def Let_def)

lemma mark_plane_keeps: "dist_part (mark_plane h ip w) = dist_part w"
  unfolding mark_plane_def by (rule fold_keeps) (rule mark_hit_keeps)

lemma mark_hits_keeps: "dist_part (mark_hits s h w) = dist_part w"
  unfolding mark_hits_def by (rule fold_keeps) (rule mark_plane_keeps)

lemma marked_keeps: "dist_part (mark_hits s h (clear_marks h w)) = dist_part w"
  by (simp add: mark_hits_keeps) (simp add: dist_part_def clear_marks_def)

lemma distances_min: "fY2Dmin (distances s h i t w) = fY2Dmin w" "fX2Dmin (distances s h i t w) = fX2Dmin w"
  using marked_keeps [of s h w]
  by (simp_all add: distances_def x_distance_def y_distance_def Let_def dist_part_def)

lemma distances_length:
  "length (fY2D (distances s h i t w)) = length (fY2D w)"
  "length (fX2D (distances s h i t w)) = length (fX2D w)"
  using marked_keeps [of s h w]
  by (simp_all add: distances_def x_distance_def y_distance_def Let_def dist_part_def)

lemma distances_other:
  "j \<noteq> i \<Longrightarrow> fY2D (distances s h i t w) ! j = fY2D w ! j"
  "j \<noteq> i \<Longrightarrow> fX2D (distances s h i t w) ! j = fX2D w ! j"
  using marked_keeps [of s h w]
  by (simp_all add: distances_def x_distance_def y_distance_def Let_def dist_part_def)

lemma scin_track_unfold:
  "scin_track h i t (w, s) =
     (if qualifies s t then select_track i (Chi2PerDeg t) (distances s h i t w, s) else (w, s))"
  by (simp add: scin_track_def qualifies_def distances_def Let_def)

lemma select_track_arrays:
  "fY2D (fst (select_track i c (w, s))) = fY2D w" "fX2D (fst (select_track i c (w, s))) = fX2D w"
  by (simp_all add: select_track_def Let_def)

subsection \<open>Strategy B: the selection step and the loop\<close>

lemma select_track_step:
  assumes "fX2D w ! i \<le> 100" "c < 10000000000"
  shows "select_track i c (w, s) =
     (if score_less (fY2D w ! i, fX2D w ! i, c) (fY2Dmin w, fX2Dmin w, fChi2Min s)
      then (w\<lparr>fY2Dmin := fY2D w ! i, fX2Dmin := fX2D w ! i\<rparr>,
            s\<lparr>fGoodTrack := int i, fChi2Min := c, fGoldenTrack := track_ptr (fTracks s) (int i)\<rparr>)
      else (w, s))"
proof -
  consider (a) "fY2D w ! i < fY2Dmin w"
    | (b) "fY2D w ! i = fY2Dmin w" "fX2D w ! i < fX2Dmin w"
    | (c) "fY2D w ! i = fY2Dmin w" "fX2D w ! i = fX2Dmin w"
    | (d) "fY2D w ! i = fY2Dmin w" "fX2D w ! i > fX2Dmin w"
    | (e) "fY2D w ! i > fY2Dmin w"
    by linarith
  then show ?thesis
  proof cases
    case a
    with assms show ?thesis by (simp add: select_track_def score_less_def Let_def)
  next
    case b
    with assms show ?thesis by (simp add: select_track_def score_less_def Let_def)
  next
    case c
    with assms show ?thesis by (simp add: select_track_def score_less_def Let_def)
  next
    case d
    with assms show ?thesis by (simp add: select_track_def score_less_def Let_def)
  next
    case e
    with assms show ?thesis by (simp add: select_track_def score_less_def Let_def)
  qed
qed

lemma At_Some: "i < length ts \<Longrightarrow> At (map Some ts) (int i) = Some (ts ! i)"
  by (simp add: At_def)

lemma track_ptr_Some: "i < length ts \<Longrightarrow> track_ptr (map Some ts) (int i) = Some i"
  by (simp add: track_ptr_def At_Some)

lemma scin_steps_0: "scin_steps h ts 0 ws = ws"
  by (simp add: scin_steps_def)

lemma scin_steps_Suc: "scin_steps h ts (Suc k) ws = scin_track h k (ts ! k) (scin_steps h ts k ws)"
  by (simp add: scin_steps_def)

lemma scin_steps_frame: "sel_eq s (snd (scin_steps h ts k (w, s)))"
proof (induction k)
  case 0
  show ?case by (simp add: scin_steps_0)
next
  case (Suc k)
  obtain w1 s1 where e: "scin_steps h ts k (w, s) = (w1, s1)" by (cases "scin_steps h ts k (w, s)")
  with Suc have "sel_eq s s1" by simp
  moreover have "sel_eq s1 (snd (scin_track h k (ts ! k) (w1, s1)))" by (rule scin_track_frame)
  ultimately show ?case by (simp add: scin_steps_Suc e) (rule sel_eq_trans)
qed

lemma scin_loop_steps:
  assumes "fTracks s = map Some ts" "k \<le> length ts"
  shows "scin_loop h [0..<k] (w, s) = (None, scin_steps h ts k (w, s))"
proof -
  have "\<And>w s. fTracks s = map Some ts \<Longrightarrow> \<forall>i\<in>set xs. i < length ts \<Longrightarrow>
      scin_loop h xs (w, s) = (None, fold (\<lambda>i. scin_track h i (ts ! i)) xs (w, s))" for xs
  proof (induction xs)
    case Nil
    show ?case by simp
  next
    case (Cons i xs)
    obtain w1 s1 where e: "scin_track h i (ts ! i) (w, s) = (w1, s1)"
      by (cases "scin_track h i (ts ! i) (w, s)")
    have "sel_eq s s1" using scin_track_frame [of s h i "ts ! i" w] by (simp add: e)
    then have t1: "fTracks s1 = map Some ts" using Cons.prems(1) by (simp add: sel_eq_fields)
    have "scin_loop h xs (w1, s1) = (None, fold (\<lambda>i. scin_track h i (ts ! i)) xs (w1, s1))"
      using Cons.IH [OF t1] Cons.prems(2) by simp
    then show ?case using Cons.prems by (simp add: At_Some e)
  qed
  from this [of s "[0..<k]" w] assms show ?thesis by (simp add: scin_steps_def)
qed

lemma scin_track_other:
  "j \<noteq> i \<Longrightarrow> fY2D (fst (scin_track h i t (w, s))) ! j = fY2D w ! j"
  "j \<noteq> i \<Longrightarrow> fX2D (fst (scin_track h i t (w, s))) ! j = fX2D w ! j"
  by (simp_all add: scin_track_unfold select_track_arrays distances_other)

lemma scin_steps_stable:
  "j < k \<Longrightarrow> k \<le> m \<Longrightarrow>
   fY2D (fst (scin_steps h ts m ws)) ! j = fY2D (fst (scin_steps h ts k ws)) ! j \<and>
   fX2D (fst (scin_steps h ts m ws)) ! j = fX2D (fst (scin_steps h ts k ws)) ! j"
proof (induction m)
  case 0
  then show ?case by simp
next
  case (Suc m)
  show ?case
  proof (cases "k = Suc m")
    case True
    then show ?thesis by simp
  next
    case False
    with Suc.prems have km: "k \<le> m" and jm: "j \<noteq> m" by simp_all
    obtain w1 s1 where e: "scin_steps h ts m ws = (w1, s1)" by (cases "scin_steps h ts m ws")
    from Suc.IH [OF Suc.prems(1) km] scin_track_other [OF jm, of h "ts ! m" w1 s1]
    show ?thesis by (simp add: scin_steps_Suc e)
  qed
qed

subsection \<open>Strategy B: the invariant of the loop\<close>

lemma score_le_refl: "score_le a a"
  by (cases a) (simp add: score_le_def)

lemma score_less_le_trans: "score_less a b \<Longrightarrow> score_le b c \<Longrightarrow> score_le a c"
  by (cases a; cases b; cases c) (auto simp: score_le_def score_less_def)

lemma score_not_less: "\<not> score_less a b \<Longrightarrow> score_le b a"
  by (cases a; cases b) (auto simp: score_le_def score_less_def)

lemma score_less_sentinel:
  "y \<le> 100 \<Longrightarrow> x \<le> 100 \<Longrightarrow> c < 10000000000 \<Longrightarrow> score_less (y, x, c) (100, 100, 10000000000)"
  by (auto simp: score_less_def)

lemma qualifies_sel_eq: "sel_eq s s' \<Longrightarrow> qualifies s' t = qualifies s t"
  by (simp add: qualifies_def sel_eq_fields)

lemma scin_inv_noneI:
  assumes "\<forall>j<k. \<not> qualifies s0 (ts ! j)" "fGoodTrack s = - 1" "fY2Dmin w = 100"
    "fX2Dmin w = 100" "fChi2Min s = 10000000000"
  shows "scin_inv s0 ts k (w, s)"
  using assms unfolding scin_inv_def by simp

lemma scin_inv_noneD:
  assumes "scin_inv s0 ts k (w, s)" "\<forall>j<k. \<not> qualifies s0 (ts ! j)"
  shows "fGoodTrack s = - 1" "fY2Dmin w = 100" "fX2Dmin w = 100" "fChi2Min s = 10000000000"
  using assms unfolding scin_inv_def by simp_all

lemma scin_inv_someI:
  assumes "g < k" "qualifies s0 (ts ! g)" "fGoodTrack s = int g" "fGoldenTrack s = Some g"
    "(fY2Dmin w, fX2Dmin w, fChi2Min s) = score ts w g"
    "\<And>j. j < k \<Longrightarrow> qualifies s0 (ts ! j) \<Longrightarrow> score_le (score ts w g) (score ts w j)"
  shows "scin_inv s0 ts k (w, s)"
proof -
  have ex: "\<not> (\<forall>j<k. \<not> qualifies s0 (ts ! j))" using assms(1,2) by blast
  have "\<exists>g<k. qualifies s0 (ts ! g) \<and> fGoodTrack s = int g \<and> fGoldenTrack s = Some g \<and>
      (fY2Dmin w, fX2Dmin w, fChi2Min s) = score ts w g \<and>
      (\<forall>j<k. qualifies s0 (ts ! j) \<longrightarrow> score_le (score ts w g) (score ts w j))"
    using assms by blast
  then show ?thesis unfolding scin_inv_def prod.case if_not_P [OF ex] .
qed

lemma scin_inv_someE:
  assumes "scin_inv s0 ts k (w, s)" "\<not> (\<forall>j<k. \<not> qualifies s0 (ts ! j))"
  obtains g where "g < k" "qualifies s0 (ts ! g)" "fGoodTrack s = int g" "fGoldenTrack s = Some g"
    "(fY2Dmin w, fX2Dmin w, fChi2Min s) = score ts w g"
    "\<And>j. j < k \<Longrightarrow> qualifies s0 (ts ! j) \<Longrightarrow> score_le (score ts w g) (score ts w j)"
proof -
  from assms(1) have "\<exists>g<k. qualifies s0 (ts ! g) \<and> fGoodTrack s = int g \<and> fGoldenTrack s = Some g \<and>
      (fY2Dmin w, fX2Dmin w, fChi2Min s) = score ts w g \<and>
      (\<forall>j<k. qualifies s0 (ts ! j) \<longrightarrow> score_le (score ts w g) (score ts w j))"
    unfolding scin_inv_def prod.case if_not_P [OF assms(2)] .
  then show ?thesis using that by blast
qed

lemma scin_inv_skip:
  assumes nq: "\<not> qualifies s0 (ts ! k)" and inv: "scin_inv s0 ts k (w, s)"
  shows "scin_inv s0 ts (Suc k) (w, s)"
proof (cases "\<forall>j<k. \<not> qualifies s0 (ts ! j)")
  case True
  then have "\<forall>j<Suc k. \<not> qualifies s0 (ts ! j)" using nq by (auto simp: less_Suc_eq)
  then show ?thesis using scin_inv_noneD [OF inv True] by (rule scin_inv_noneI)
next
  case False
  from inv False obtain g where g: "g < k" "qualifies s0 (ts ! g)" "fGoodTrack s = int g"
    "fGoldenTrack s = Some g" "(fY2Dmin w, fX2Dmin w, fChi2Min s) = score ts w g"
    "\<And>j. j < k \<Longrightarrow> qualifies s0 (ts ! j) \<Longrightarrow> score_le (score ts w g) (score ts w j)"
    by (rule scin_inv_someE) blast
  show ?thesis
  proof (rule scin_inv_someI [of g])
    show "g < Suc k" using g(1) by simp
    fix j assume "j < Suc k" "qualifies s0 (ts ! j)"
    with nq have "j < k" by (cases "j = k") auto
    then show "score_le (score ts w g) (score ts w j)" using \<open>qualifies s0 (ts ! j)\<close> by (rule g(6))
  qed (rule g)+
qed

lemma scin_inv_steps:
  assumes init: "fGoodTrack s0 = - 1" "fChi2Min s0 = 10000000000" "fY2Dmin w0 = 100" "fX2Dmin w0 = 100"
    and tr: "fTracks s0 = map Some ts" and nlen: "n \<le> length ts"
    and bnd: "\<forall>j<n. qualifies s0 (ts ! j) \<longrightarrow>
        Chi2PerDeg (ts ! j) < 10000000000 \<and>
        fY2D (fst (scin_steps h ts n (w0, s0))) ! j \<le> 100 \<and>
        fX2D (fst (scin_steps h ts n (w0, s0))) ! j \<le> 100"
  shows "k \<le> n \<Longrightarrow> scin_inv s0 ts k (scin_steps h ts k (w0, s0))"
proof (induction k)
  case 0
  show ?case unfolding scin_steps_0 by (rule scin_inv_noneI) (simp_all add: init)
next
  case (Suc k)
  obtain w s where e: "scin_steps h ts k (w0, s0) = (w, s)"
    by (cases "scin_steps h ts k (w0, s0)")
  have fr: "sel_eq s0 s" using scin_steps_frame [of s0 h ts k w0] by (simp add: e)
  have trs: "fTracks s = map Some ts" using fr tr by (simp add: sel_eq_fields)
  have kn: "k < n" and klen: "k < length ts" using Suc.prems nlen by simp_all
  have IH: "scin_inv s0 ts k (w, s)" using Suc.IH Suc.prems by (simp add: e)
  let ?t = "ts ! k"
  show ?case
  proof (cases "qualifies s0 ?t")
    case False
    then have same: "scin_track h k ?t (w, s) = (w, s)"
      by (simp add: scin_track_unfold qualifies_sel_eq [OF fr])
    from scin_inv_skip [OF False IH] show ?thesis
      by (simp add: scin_steps_Suc e same)
  next
    case True
    define w4 where "w4 = distances s h k ?t w"
    define c where "c = Chi2PerDeg ?t"
    have step: "scin_steps h ts (Suc k) (w0, s0) = select_track k c (w4, s)"
      using True by (simp add: scin_steps_Suc e scin_track_unfold qualifies_sel_eq [OF fr] w4_def c_def)
    have arr: "fY2D (fst (scin_steps h ts (Suc k) (w0, s0))) = fY2D w4"
      "fX2D (fst (scin_steps h ts (Suc k) (w0, s0))) = fX2D w4"
      by (simp_all add: step select_track_arrays)
    have "fY2D (fst (scin_steps h ts n (w0, s0))) ! k = fY2D w4 ! k \<and>
          fX2D (fst (scin_steps h ts n (w0, s0))) ! k = fX2D w4 ! k"
      using scin_steps_stable [of k "Suc k" n h ts "(w0, s0)"] Suc.prems by (simp add: arr)
    with bnd kn True have yb: "fY2D w4 ! k \<le> 100" and xb: "fX2D w4 ! k \<le> 100"
      and cb: "c < 10000000000" by (auto simp: c_def)
    have old: "score ts w4 j = score ts w j" if "j < k" for j
      using that by (simp add: score_def w4_def distances_other)
    have mins: "fY2Dmin w4 = fY2Dmin w" "fX2Dmin w4 = fX2Dmin w"
      by (simp_all add: w4_def distances_min)
    have sk: "(fY2D w4 ! k, fX2D w4 ! k, c) = score ts w4 k" by (simp add: score_def c_def)
    note sel = select_track_step [OF xb cb, of s, unfolded sk mins]
    have ptr: "track_ptr (fTracks s) (int k) = Some k" by (simp add: trs track_ptr_Some klen)
    let ?w' = "w4\<lparr>fY2Dmin := fY2D w4 ! k, fX2Dmin := fX2D w4 ! k\<rparr>"
    let ?s' = "s\<lparr>fGoodTrack := int k, fChi2Min := c, fGoldenTrack := Some k\<rparr>"
    have sc: "score ts ?w' j = score ts w4 j" for j by (simp add: score_def)
    show ?thesis
    proof (cases "\<forall>j<k. \<not> qualifies s0 (ts ! j)")
      case none: True
      note st = scin_inv_noneD [OF IH none]
      have less: "score_less (score ts w4 k) (fY2Dmin w, fX2Dmin w, fChi2Min s)"
        unfolding st sk [symmetric] by (rule score_less_sentinel [OF yb xb cb])
      have res: "scin_steps h ts (Suc k) (w0, s0) = (?w', ?s')"
        using less by (simp add: step sel ptr)
      have only: "j = k" if "j < Suc k" "qualifies s0 (ts ! j)" for j
        using that none by (cases "j = k") (auto simp: less_Suc_eq)
      show ?thesis unfolding res
      proof (rule scin_inv_someI [of k])
        show "(fY2Dmin ?w', fX2Dmin ?w', fChi2Min ?s') = score ts ?w' k"
          by (simp add: score_def c_def)
        fix j assume "j < Suc k" "qualifies s0 (ts ! j)"
        then have "j = k" by (rule only)
        then show "score_le (score ts ?w' k) (score ts ?w' j)" by (simp add: score_le_refl)
      qed (simp_all add: True)
    next
      case some: False
      from IH some obtain g where g: "g < k" "qualifies s0 (ts ! g)" "fGoodTrack s = int g"
        "fGoldenTrack s = Some g" "(fY2Dmin w, fX2Dmin w, fChi2Min s) = score ts w g"
        "\<And>j. j < k \<Longrightarrow> qualifies s0 (ts ! j) \<Longrightarrow> score_le (score ts w g) (score ts w j)"
        by (rule scin_inv_someE) blast
      show ?thesis
      proof (cases "score_less (score ts w4 k) (score ts w g)")
        case better: True
        have res: "scin_steps h ts (Suc k) (w0, s0) = (?w', ?s')"
          using better by (simp add: step sel ptr g(5))
        show ?thesis unfolding res
        proof (rule scin_inv_someI [of k])
          show "(fY2Dmin ?w', fX2Dmin ?w', fChi2Min ?s') = score ts ?w' k"
            by (simp add: score_def c_def)
          fix j assume j: "j < Suc k" "qualifies s0 (ts ! j)"
          show "score_le (score ts ?w' k) (score ts ?w' j)"
          proof (cases "j = k")
            case True
            then show ?thesis by (simp add: score_le_refl)
          next
            case False
            with j have jk: "j < k" by simp
            from g(6) [OF jk j(2)] better show ?thesis
              unfolding sc old [OF jk] by (rule score_less_le_trans [rotated])
          qed
        qed (simp_all add: True)
      next
        case worse: False
        have res: "scin_steps h ts (Suc k) (w0, s0) = (w4, s)"
          using worse by (simp add: step sel g(5))
        show ?thesis unfolding res
        proof (rule scin_inv_someI [of g])
          show "g < Suc k" using g(1) by simp
          show "(fY2Dmin w4, fX2Dmin w4, fChi2Min s) = score ts w4 g"
            using g(5) by (simp add: mins old [OF g(1)])
          fix j assume j: "j < Suc k" "qualifies s0 (ts ! j)"
          show "score_le (score ts w4 g) (score ts w4 j)"
          proof (cases "j = k")
            case True
            with worse show ?thesis by (simp add: old [OF g(1)] score_not_less)
          next
            case False
            with j have jk: "j < k" by simp
            from g(6) [OF jk j(2)] show ?thesis by (simp add: old [OF jk] old [OF g(1)])
          qed
        qed (rule g)+
      qed
    qed
  qed
qed

subsection \<open>Strategy B: the block\<close>

lemma scin_loop_frame: "sel_eq s (snd (snd (scin_loop h xs (w, s))))"
proof (induction xs arbitrary: w s)
  case Nil
  show ?case by simp
next
  case (Cons i xs)
  show ?case
  proof (cases "At (fTracks s) (int i)")
    case None
    then show ?thesis by simp
  next
    case (Some t)
    obtain w1 s1 where e: "scin_track h i t (w, s) = (w1, s1)" by (cases "scin_track h i t (w, s)")
    have "sel_eq s s1" using scin_track_frame [of s h i t w] by (simp add: e)
    moreover have "sel_eq s1 (snd (snd (scin_loop h xs (w1, s1))))" by (rule Cons.IH)
    ultimately show ?thesis using Some by (simp add: e) (rule sel_eq_trans)
  qed
qed

lemma rescan_loop_frame: "sel_eq s (snd (rescan_loop xs s))"
proof (induction xs arbitrary: s)
  case Nil
  show ?case by simp
next
  case (Cons i xs)
  show ?case
  proof (cases "At (fTracks s) (int i)")
    case None
    then show ?thesis by simp
  next
    case (Some t)
    have "sel_eq s (rescan_track i t s)" by (rule rescan_track_frame)
    moreover have "sel_eq (rescan_track i t s) (snd (rescan_loop xs (rescan_track i t s)))"
      by (rule Cons.IH)
    ultimately show ?thesis using Some by simp (rule sel_eq_trans)
  qed
qed

lemma rescan_loop_Some:
  "fTracks s = map Some ts \<Longrightarrow> \<forall>i\<in>set xs. i < length ts \<Longrightarrow>
   rescan_loop xs s = (None, fold (\<lambda>i. rescan_track i (ts ! i)) xs s)"
proof (induction xs arbitrary: s)
  case Nil
  show ?case by simp
next
  case (Cons i xs)
  have "fTracks (rescan_track i (ts ! i) s) = map Some ts"
    using rescan_track_frame [of s i "ts ! i"] Cons.prems(1) by (simp add: sel_eq_fields)
  from Cons.IH [OF this] Cons.prems show ?case by (simp add: At_Some)
qed

lemma scin_select_frame: "sel_eq s (snd (snd (scin_select h w s)))"
proof (cases "fNtracks s > 0")
  case False
  then show ?thesis by (simp add: scin_select_def)
next
  case True
  let ?s0 = "s\<lparr>fChi2Min := 10000000000, fGoodTrack := - 1\<rparr>"
  let ?w0 = "w\<lparr>fY2Dmin := 100, fX2Dmin := 100, fRawIndex := - 1\<rparr>"
  have s0: "sel_eq s ?s0" by (simp add: sel_eq_def)
  obtain r w1 s1 where e: "scin_loop h [0..<fNtracks ?s0] (?w0, ?s0) = (r, w1, s1)"
    by (cases "scin_loop h [0..<fNtracks ?s0] (?w0, ?s0)")
  have s1: "sel_eq s s1"
    using scin_loop_frame [of ?s0 h "[0..<fNtracks ?s0]" ?w0] s0 by (simp only: e snd_conv) (rule sel_eq_trans)
  obtain r2 s2 where e2: "rescan_loop [0..<fNtracks s1] (s1\<lparr>fChi2Min := 10000000000\<rparr>) = (r2, s2)"
    by (cases "rescan_loop [0..<fNtracks s1] (s1\<lparr>fChi2Min := 10000000000\<rparr>)")
  have "sel_eq s1 (s1\<lparr>fChi2Min := 10000000000\<rparr>)" by simp
  moreover have "sel_eq (s1\<lparr>fChi2Min := 10000000000\<rparr>) s2"
    using rescan_loop_frame [of "s1\<lparr>fChi2Min := 10000000000\<rparr>" "[0..<fNtracks s1]"] by (simp only: e2 snd_conv)
  ultimately have s2: "sel_eq s s2" using s1 by (blast intro: sel_eq_trans)
  show ?thesis
    using True s1 s2 e e2 by (cases r) (simp_all add: scin_select_def Let_def)
qed

lemma scin_select_qualifying:
  assumes tr: "fTracks s = map Some ts" "fNtracks s = length ts"
    and res: "scin_select h w0 s = (r, w, s')"
    and ex: "\<exists>j<length ts. qualifies s (ts ! j)"
    and bnd: "\<forall>j<length ts. qualifies s (ts ! j) \<longrightarrow>
        Chi2PerDeg (ts ! j) < 10000000000 \<and> fY2D w ! j \<le> 100 \<and> fX2D w ! j \<le> 100"
  shows "r = None \<and>
     (\<exists>g<length ts. qualifies s (ts ! g) \<and> fGoldenTrack s' = Some g \<and>
        (\<forall>j<length ts. qualifies s (ts ! j) \<longrightarrow> score_le (score ts w g) (score ts w j)))"
proof -
  let ?n = "length ts"
  let ?s0 = "s\<lparr>fChi2Min := 10000000000, fGoodTrack := - 1\<rparr>"
  let ?w0 = "w0\<lparr>fY2Dmin := 100, fX2Dmin := 100, fRawIndex := - 1\<rparr>"
  have pos: "fNtracks s > 0" using ex tr(2) by auto
  have s0: "sel_eq s ?s0" by (simp add: sel_eq_def)
  have q0: "qualifies ?s0 t = qualifies s t" for t by (rule qualifies_sel_eq [OF s0])
  have tr0: "fTracks ?s0 = map Some ts" using tr by simp
  obtain w1 s1 where e: "scin_steps h ts ?n (?w0, ?s0) = (w1, s1)"
    by (cases "scin_steps h ts ?n (?w0, ?s0)")
  have loop: "scin_loop h [0..<fNtracks ?s0] (?w0, ?s0) = (None, w1, s1)"
    using scin_loop_steps [OF tr0 le_refl, of h ?w0] tr(2) by (simp add: e)
  have sel: "scin_select h w0 s =
      (if fGoodTrack s1 = - 1
       then (case rescan_loop [0..<fNtracks s1] (s1\<lparr>fChi2Min := 10000000000\<rparr>) of
               (r, s2) \<Rightarrow> (r, w1, s2))
       else (None, w1, s1))"
    using pos loop by (simp add: scin_select_def Let_def)
  have w1: "w = w1" using res sel by (auto split: if_splits prod.splits)
  have bnd0: "\<forall>j<?n. qualifies ?s0 (ts ! j) \<longrightarrow>
      Chi2PerDeg (ts ! j) < 10000000000 \<and>
      fY2D (fst (scin_steps h ts ?n (?w0, ?s0))) ! j \<le> 100 \<and>
      fX2D (fst (scin_steps h ts ?n (?w0, ?s0))) ! j \<le> 100"
    using bnd by (simp add: e q0 w1)
  have inv: "scin_inv ?s0 ts ?n (w1, s1)"
    using scin_inv_steps [of ?s0 ?w0 ts ?n h ?n, OF _ _ _ _ tr0 le_refl bnd0 le_refl]
    by (simp add: e)
  have "\<not> (\<forall>j<?n. \<not> qualifies ?s0 (ts ! j))" using ex by (simp add: q0)
  with inv obtain g where g: "g < ?n" "qualifies ?s0 (ts ! g)" "fGoodTrack s1 = int g"
    "fGoldenTrack s1 = Some g"
    "\<And>j. j < ?n \<Longrightarrow> qualifies ?s0 (ts ! j) \<Longrightarrow> score_le (score ts w1 g) (score ts w1 j)"
    by (rule scin_inv_someE) blast
  have "scin_select h w0 s = (None, w1, s1)" using g(3) by (simp add: sel)
  with res have "r = None" "s' = s1" by simp_all
  with g w1 show ?thesis by (auto simp: q0)
qed

subsection \<open>Strategy C: the soft cuts\<close>

lemma count_good_0: "count_good c ts 0 k = 0"
  by (simp add: count_good_def)

lemma count_good_Suc:
  "count_good c ts (Suc n) k = count_good c ts n k + (if good c (ts ! n) \<and> k ! n then 1 else 0)"
  by (simp add: count_good_def)

lemma count_good_nonneg: "0 \<le> count_good c ts n k"
  by (induction n) (simp_all add: count_good_0 count_good_Suc)

lemma count_good_pos: "0 < count_good c ts n k \<longleftrightarrow> (\<exists>i<n. good c (ts ! i) \<and> k ! i)"
proof (induction n)
  case 0
  show ?case by (simp add: count_good_0)
next
  case (Suc n)
  have "0 < count_good c ts (Suc n) k \<longleftrightarrow> 0 < count_good c ts n k \<or> (good c (ts ! n) \<and> k ! n)"
    using count_good_nonneg [of c ts n k] by (auto simp: count_good_Suc)
  with Suc show ?case by (auto simp: less_Suc_eq)
qed

lemma reject_bad_0: "reject_bad c ts 0 kr = kr"
  by (simp add: reject_bad_def)

lemma reject_bad_Suc:
  "reject_bad c ts (Suc n) kr =
     (let kr1 = reject_bad c ts n kr
      in if bad c (ts ! n)
         then ((fst kr1)[n := False], (snd kr1)[n := snd kr1 ! n + reject_code c])
         else kr1)"
  by (simp add: reject_bad_def Let_def)

lemma reject_bad_length:
  "length (fst (reject_bad c ts n kr)) = length (fst kr) \<and>
   length (snd (reject_bad c ts n kr)) = length (snd kr)"
  by (induction n) (simp_all add: reject_bad_0 reject_bad_Suc Let_def)

lemma reject_bad_nth:
  assumes "i < length (fst kr)" "i < length (snd kr)"
  shows "fst (reject_bad c ts n kr) ! i = (fst kr ! i \<and> \<not> (i < n \<and> bad c (ts ! i))) \<and>
         snd (reject_bad c ts n kr) ! i =
           snd kr ! i + (if i < n \<and> bad c (ts ! i) then reject_code c else 0)"
proof (induction n)
  case 0
  show ?case by (simp add: reject_bad_0)
next
  case (Suc n)
  have len: "i < length (fst (reject_bad c ts n kr))" "i < length (snd (reject_bad c ts n kr))"
    using assms by (simp_all add: reject_bad_length)
  show ?case
  proof (cases "i = n")
    case True
    with Suc len show ?thesis by (simp add: reject_bad_Suc Let_def)
  next
    case False
    with Suc len show ?thesis by (simp add: reject_bad_Suc Let_def less_Suc_eq)
  qed
qed

lemma prune_cuts_complement:
  "c \<in> set (prune_cuts s h) \<Longrightarrow> bad c t \<longleftrightarrow> \<not> good c t"
  by (auto simp: prune_cuts_def prune_xptar_def prune_yptar_def prune_ytar_def prune_delta_def
      prune_beta_def prune_df_def prune_npmt_def prune_chibeta_def prune_fptime_def prune_y2_def
      prune_x2_def)

lemma soft_cut_length:
  "length (fst (soft_cut ts n c kr)) = length (fst kr) \<and>
   length (snd (soft_cut ts n c kr)) = length (snd kr)"
  by (simp add: soft_cut_def reject_bad_length)

lemma prune_pipeline_length:
  "length (fst (prune_pipeline cuts ts n)) = n \<and> length (snd (prune_pipeline cuts ts n)) = n"
proof -
  have "length (fst (fold (soft_cut ts n) cuts kr)) = length (fst kr) \<and>
        length (snd (fold (soft_cut ts n) cuts kr)) = length (snd kr)" for kr
    by (induction cuts arbitrary: kr) (simp_all add: soft_cut_length)
  then show ?thesis by (simp add: prune_pipeline_def)
qed

lemma prune_pipeline_snoc:
  "k < length cuts \<Longrightarrow>
   prune_pipeline (take (Suc k) cuts) ts n = soft_cut ts n (cuts ! k) (prune_pipeline (take k cuts) ts n)"
  by (simp add: prune_pipeline_def take_Suc_conv_app_nth)

lemma soft_cut_effect:
  assumes len: "length (fst kr) = n" "length (snd kr) = n"
  shows "(if \<exists>i<n. fst kr ! i \<and> good c (ts ! i)
          then \<forall>i<n. fst (soft_cut ts n c kr) ! i = (fst kr ! i \<and> \<not> bad c (ts ! i)) \<and>
                 snd (soft_cut ts n c kr) ! i =
                   snd kr ! i + (if bad c (ts ! i) then reject_code c else 0)
          else soft_cut ts n c kr = kr)"
proof (cases "\<exists>i<n. fst kr ! i \<and> good c (ts ! i)")
  case True
  then have "0 < count_good c ts n (fst kr)" by (auto simp: count_good_pos)
  then have "soft_cut ts n c kr = reject_bad c ts n kr" by (simp add: soft_cut_def)
  with len show ?thesis unfolding if_P [OF True] by (simp add: reject_bad_nth)
next
  case False
  then have "\<not> 0 < count_good c ts n (fst kr)" by (auto simp: count_good_pos)
  then show ?thesis unfolding if_not_P [OF False] by (simp add: soft_cut_def)
qed

lemma soft_cut_keeps_one:
  assumes len: "length (fst kr) = n" "length (snd kr) = n"
    and compl: "\<And>t. bad c t \<longleftrightarrow> \<not> good c t"
    and ex: "\<exists>i<n. fst kr ! i"
  shows "\<exists>i<n. fst (soft_cut ts n c kr) ! i"
proof (cases "\<exists>i<n. fst kr ! i \<and> good c (ts ! i)")
  case True
  then obtain i where i: "i < n" "fst kr ! i" "good c (ts ! i)" by blast
  from soft_cut_effect [OF len, of c ts] True
  have "fst (soft_cut ts n c kr) ! i = (fst kr ! i \<and> \<not> bad c (ts ! i))" using i(1) by simp
  with i compl show ?thesis by blast
next
  case False
  with soft_cut_effect [OF len, of c ts] have "soft_cut ts n c kr = kr" by simp
  with ex show ?thesis by simp
qed

lemma prune_pipeline_keeps_one:
  assumes "0 < n" "k \<le> length (prune_cuts s h)"
  shows "\<exists>i<n. fst (prune_pipeline (take k (prune_cuts s h)) ts n) ! i"
  using assms(2)
proof (induction k)
  case 0
  show ?case using assms(1) by (auto simp: prune_pipeline_def)
next
  case (Suc k)
  then have k: "k < length (prune_cuts s h)" by simp
  let ?kr = "prune_pipeline (take k (prune_cuts s h)) ts n"
  have "\<exists>i<n. fst (soft_cut ts n (prune_cuts s h ! k) ?kr) ! i"
  proof (rule soft_cut_keeps_one)
    show "length (fst ?kr) = n" "length (snd ?kr) = n" by (simp_all add: prune_pipeline_length)
    show "bad (prune_cuts s h ! k) t \<longleftrightarrow> \<not> good (prune_cuts s h ! k) t" for t
      by (rule prune_cuts_complement [of _ s h]) (simp add: k)
    show "\<exists>i<n. fst ?kr ! i" using Suc k by simp
  qed
  then show ?case by (simp add: prune_pipeline_snoc [OF k])
qed

text \<open>
  Claim C3. In Strategy C, on an event with at least one track, for every cut of the
  pipeline in the order of the source (the nine threshold cuts and the two plane-hit cuts,
  eleven in all): the state after the cut is the soft cut applied to the state before it;
  if some track still kept passes the cut, the cut is enforced (a track stays kept exactly
  when it was kept and does not fail, and the rejection code of a failing track grows by
  the code of the cut); otherwise the cut leaves both arrays as they were; in either case
  some track is kept after the cut. The codes of the cuts are pairwise distinct.
\<close>

theorem soft_cut_enforced:
  assumes "ts \<noteq> []" "k < length (prune_cuts s h)"
  shows "let n = length ts; c = prune_cuts s h ! k;
             before = prune_pipeline (take k (prune_cuts s h)) ts n;
             after = prune_pipeline (take (Suc k) (prune_cuts s h)) ts n
         in after = soft_cut ts n c before \<and>
            (if \<exists>i<n. fst before ! i \<and> good c (ts ! i)
             then \<forall>i<n. fst after ! i = (fst before ! i \<and> \<not> bad c (ts ! i)) \<and>
                    snd after ! i = snd before ! i + (if bad c (ts ! i) then reject_code c else 0)
             else after = before) \<and>
            (\<exists>i<n. fst after ! i) \<and>
            distinct (map reject_code (prune_cuts s h)) \<and>
            length (prune_cuts s h) = 11"
proof -
  let ?n = "length ts"
  let ?before = "prune_pipeline (take k (prune_cuts s h)) ts ?n"
  have snoc: "prune_pipeline (take (Suc k) (prune_cuts s h)) ts ?n =
      soft_cut ts ?n (prune_cuts s h ! k) ?before"
    by (rule prune_pipeline_snoc [OF assms(2)])
  have eff: "(if \<exists>i<?n. fst ?before ! i \<and> good (prune_cuts s h ! k) (ts ! i)
          then \<forall>i<?n. fst (soft_cut ts ?n (prune_cuts s h ! k) ?before) ! i =
                   (fst ?before ! i \<and> \<not> bad (prune_cuts s h ! k) (ts ! i)) \<and>
                 snd (soft_cut ts ?n (prune_cuts s h ! k) ?before) ! i =
                   snd ?before ! i + (if bad (prune_cuts s h ! k) (ts ! i) then reject_code (prune_cuts s h ! k) else 0)
          else soft_cut ts ?n (prune_cuts s h ! k) ?before = ?before)"
    by (rule soft_cut_effect) (simp_all add: prune_pipeline_length)
  have one: "\<exists>i<?n. fst (prune_pipeline (take (Suc k) (prune_cuts s h)) ts ?n) ! i"
    by (rule prune_pipeline_keeps_one) (use assms in simp_all)
  have dist: "distinct (map reject_code (prune_cuts s h))"
    by (simp add: prune_cuts_def prune_xptar_def prune_yptar_def prune_ytar_def prune_delta_def
      prune_beta_def prune_df_def prune_npmt_def prune_chibeta_def prune_fptime_def prune_y2_def
      prune_x2_def)
  have eleven: "length (prune_cuts s h) = 11" by (simp add: prune_cuts_def)
  show ?thesis unfolding Let_def snoc using eff one dist eleven unfolding snoc by blast
qed

subsection \<open>Strategy C: the best kept track\<close>

lemma best_steps_0: "best_steps ts keep 0 s = s"
  by (simp add: best_steps_def)

lemma best_steps_Suc: "best_steps ts keep (Suc k) s = pick_best ts keep k (best_steps ts keep k s)"
  by (simp add: best_steps_def)

lemma pick_best_frame: "sel_eq s (pick_best ts keep k s)"
  by (simp add: pick_best_def Let_def sel_eq_def)

lemma best_steps_frame: "sel_eq s (best_steps ts keep k s)"
proof (induction k)
  case 0
  show ?case by (simp add: best_steps_0)
next
  case (Suc k)
  from Suc pick_best_frame [of "best_steps ts keep k s" ts keep k]
  show ?case unfolding best_steps_Suc by (rule sel_eq_trans)
qed

lemma best_steps_golden: "fGoldenTrack (best_steps ts keep k s) = fGoldenTrack s"
  by (induction k) (simp_all add: best_steps_0 best_steps_Suc pick_best_def Let_def)

lemma best_steps_inv:
  assumes "fChi2Min s = 10000000000"
  shows "fChi2Min (best_steps ts keep k s) \<le> 10000000000 \<and>
     (\<forall>j<k. keep ! j \<longrightarrow> fChi2Min (best_steps ts keep k s) \<le> Chi2PerDeg (ts ! j)) \<and>
     (fChi2Min (best_steps ts keep k s) < 10000000000 \<longrightarrow>
        (\<exists>g<k. keep ! g \<and> fGoodTrack (best_steps ts keep k s) = int g \<and>
           fChi2Min (best_steps ts keep k s) = Chi2PerDeg (ts ! g)))"
proof (induction k)
  case 0
  show ?case using assms by (simp add: best_steps_0)
next
  case (Suc k)
  let ?s = "best_steps ts keep k s"
  show ?case
  proof (cases "Chi2PerDeg (ts ! k) < fChi2Min ?s \<and> keep ! k")
    case True
    then have e: "best_steps ts keep (Suc k) s = ?s\<lparr>fGoodTrack := int k, fChi2Min := Chi2PerDeg (ts ! k)\<rparr>"
      by (simp add: best_steps_Suc pick_best_def Let_def)
    have "\<forall>j<Suc k. keep ! j \<longrightarrow> Chi2PerDeg (ts ! k) \<le> Chi2PerDeg (ts ! j)"
      using Suc True by (auto simp: less_Suc_eq)
    moreover have "Chi2PerDeg (ts ! k) \<le> 10000000000" using Suc True by simp
    ultimately show ?thesis using True unfolding e by auto
  next
    case False
    then have e: "best_steps ts keep (Suc k) s = ?s"
      unfolding best_steps_Suc pick_best_def Let_def by (rule if_not_P)
    have "\<forall>j<Suc k. keep ! j \<longrightarrow> fChi2Min ?s \<le> Chi2PerDeg (ts ! j)"
      using Suc False by (auto simp: less_Suc_eq)
    moreover have "fChi2Min ?s < 10000000000 \<longrightarrow>
        (\<exists>g<Suc k. keep ! g \<and> fGoodTrack ?s = int g \<and> fChi2Min ?s = Chi2PerDeg (ts ! g))"
      using Suc less_Suc_eq by blast
    ultimately show ?thesis using Suc unfolding e by blast
  qed
qed

lemma load_tracks_nth:
  "\<forall>i\<in>set xs. i < length ts \<Longrightarrow> load_tracks (map Some ts) xs = Some (map ((!) ts) xs)"
  by (induction xs) (simp_all add: At_Some)

lemma load_tracks_Some: "load_tracks (map Some ts) [0..<length ts] = Some ts"
  by (simp add: load_tracks_nth map_nth)

lemma clamp_prune_frame:
  "fTracks (clamp_prune s) = fTracks s" "fNtracks (clamp_prune s) = fNtracks s"
  "fGoldenTrack (clamp_prune s) = fGoldenTrack s"
  "fSelUsingScin (clamp_prune s) = fSelUsingScin s" "fSelUsingPrune (clamp_prune s) = fSelUsingPrune s"
  by (simp_all add: clamp_prune_def)

lemma prune_select_Some:
  assumes tr: "fTracks s = map Some ts" "fNtracks s = length ts" and ne: "ts \<noteq> []"
  shows "prune_select h s =
     (let s2 = (clamp_prune s)\<lparr>fChi2Min := 10000000000, fGoodTrack := 0\<rparr>;
          keep = fst (prune_pipeline (prune_cuts (clamp_prune s) h) ts (length ts));
          s3 = best_steps ts keep (length ts) s2
      in (None, s3\<lparr>fGoldenTrack := track_ptr (map Some ts) (fGoodTrack s3)\<rparr>))"
proof -
  let ?s2 = "(clamp_prune s)\<lparr>fChi2Min := 10000000000, fGoodTrack := 0\<rparr>"
  have cuts: "prune_cuts ?s2 h = prune_cuts (clamp_prune s) h"
    by (rule fun_cong [OF sel_eq_fields(11)]) (simp add: sel_eq_def)
  have tr3: "fTracks (best_steps ts keep (length ts) ?s2) = map Some ts" for keep
    using best_steps_frame [of ?s2 ts keep "length ts"] tr by (simp add: sel_eq_fields clamp_prune_frame)
  show ?thesis using ne tr
    by (simp add: prune_select_def Let_def clamp_prune_frame load_tracks_Some cuts tr3
        best_steps_def [symmetric])
qed

lemma prune_select_empty:
  assumes "fNtracks s = 0"
  shows "prune_select h s = (None, (clamp_prune s)\<lparr>fGoldenTrack := None\<rparr>)"
  using assms by (simp add: prune_select_def Let_def clamp_prune_frame)

lemma prune_select_golden:
  assumes tr: "fTracks s = map Some ts" "fNtracks s = length ts"
    and keep: "keep = fst (prune_pipeline (prune_cuts (clamp_prune s) h) ts (length ts))"
    and ex: "\<exists>i<length ts. keep ! i \<and> Chi2PerDeg (ts ! i) < 10000000000"
  shows "\<exists>g<length ts. fGoldenTrack (snd (prune_select h s)) = Some g \<and> keep ! g \<and>
           (\<forall>j<length ts. keep ! j \<longrightarrow> Chi2PerDeg (ts ! g) \<le> Chi2PerDeg (ts ! j))"
proof -
  let ?s2 = "(clamp_prune s)\<lparr>fChi2Min := 10000000000, fGoodTrack := 0\<rparr>"
  let ?s3 = "best_steps ts keep (length ts) ?s2"
  have ne: "ts \<noteq> []" using ex by auto
  have inv: "fChi2Min ?s3 \<le> 10000000000 \<and>
     (\<forall>j<length ts. keep ! j \<longrightarrow> fChi2Min ?s3 \<le> Chi2PerDeg (ts ! j)) \<and>
     (fChi2Min ?s3 < 10000000000 \<longrightarrow>
        (\<exists>g<length ts. keep ! g \<and> fGoodTrack ?s3 = int g \<and> fChi2Min ?s3 = Chi2PerDeg (ts ! g)))"
    by (rule best_steps_inv) simp
  from ex obtain i where i: "i < length ts" "keep ! i" "Chi2PerDeg (ts ! i) < 10000000000" by blast
  with inv have "fChi2Min ?s3 < 10000000000" by fastforce
  with inv obtain g where g: "g < length ts" "keep ! g" "fGoodTrack ?s3 = int g"
    "fChi2Min ?s3 = Chi2PerDeg (ts ! g)" by blast
  have "fGoldenTrack (snd (prune_select h s)) = Some g"
    using g(1,3) by (simp add: prune_select_Some [OF tr ne] Let_def keep [symmetric] track_ptr_Some)
  moreover have "\<forall>j<length ts. keep ! j \<longrightarrow> Chi2PerDeg (ts ! g) \<le> Chi2PerDeg (ts ! j)"
    using inv g(4) by simp
  ultimately show ?thesis using g(1,2) by blast
qed

subsection \<open>TrackCalc under each setting of the flags\<close>

lemma configuration_sel_eq: "sel_eq s s' \<Longrightarrow> configuration s' = configuration s"
  by (erule sel_eqE) (simp add: configuration_def)

lemma configuration_clamp: "configuration (clamp_prune s) = clamp_prune (configuration s)"
  by (simp add: configuration_def clamp_prune_def)

lemma configuration_flags:
  "fSelUsingScin (configuration s) = fSelUsingScin s"
  "fSelUsingPrune (configuration s) = fSelUsingPrune s"
  by (simp_all add: configuration_def)

lemma configuration_eq_flags:
  assumes "configuration s' = configuration s"
  shows "fSelUsingScin s' = fSelUsingScin s" "fSelUsingPrune s' = fSelUsingPrune s"
  using configuration_flags [of s] configuration_flags [of s'] assms by simp_all

lemma configuration_sorted_first: "configuration (sorted_first Sort s) = configuration s"
  by (simp add: sorted_first_def Let_def configuration_def)

lemma prune_select_frame: "sel_eq (clamp_prune s) (snd (prune_select h s))"
proof (cases "fNtracks s > 0")
  case False
  then show ?thesis by (simp add: prune_select_def Let_def clamp_prune_frame)
next
  case True
  let ?s2 = "(clamp_prune s)\<lparr>fChi2Min := 10000000000, fGoodTrack := 0\<rparr>"
  have s2: "sel_eq (clamp_prune s) ?s2" by (simp add: sel_eq_def)
  show ?thesis
  proof (cases "load_tracks (fTracks ?s2) [0..<fNtracks ?s2]")
    case None
    with True s2 show ?thesis by (simp add: prune_select_def Let_def clamp_prune_frame)
  next
    case (Some ts)
    let ?keep = "fst (prune_pipeline (prune_cuts ?s2 h) ts (fNtracks ?s2))"
    let ?s3 = "best_steps ts ?keep (fNtracks ?s2) ?s2"
    have "sel_eq ?s2 ?s3" by (rule best_steps_frame)
    with s2 have "sel_eq (clamp_prune s) ?s3" by (rule sel_eq_trans)
    moreover have "sel_eq ?s3 (?s3\<lparr>fGoldenTrack := track_ptr (fTracks ?s3) (fGoodTrack ?s3)\<rparr>)"
      by simp
    ultimately have "sel_eq (clamp_prune s) (?s3\<lparr>fGoldenTrack := track_ptr (fTracks ?s3) (fGoodTrack ?s3)\<rparr>)"
      by (rule sel_eq_trans)
    with True Some show ?thesis
      by (simp add: prune_select_def Let_def clamp_prune_frame best_steps_def)
  qed
qed

lemma TrackCalc_sorted:
  assumes "fSelUsingScin s = 0" "fSelUsingPrune s = 0"
  shows "TrackCalc Sort h s = (0, sorted_first Sort s)"
proof -
  have "fSelUsingScin (sorted_first Sort s) = 0" "fSelUsingPrune (sorted_first Sort s) = 0"
    using configuration_eq_flags [OF configuration_sorted_first [of Sort s]] assms by simp_all
  with assms show ?thesis by (simp add: TrackCalc_def Let_def TrackTimes_def)
qed

lemma TrackCalc_scin:
  assumes "fSelUsingScin s = 1" "scin_select h (new_work h s) s = (r, w, s')"
  shows "TrackCalc Sort h s =
     (case r of Some rc \<Rightarrow> (rc, s')
      | None \<Rightarrow> (case (if fSelUsingPrune s = 1 then prune_select h s' else (None, s')) of
                  (Some rc, s3) \<Rightarrow> (rc, s3) | (None, s3) \<Rightarrow> (0, s3)))"
proof -
  have "sel_eq s s'" using scin_select_frame [of s h "new_work h s"] assms(2) by simp
  then have "fSelUsingPrune s' = fSelUsingPrune s" by (simp add: sel_eq_fields)
  with assms show ?thesis
    by (cases r) (simp_all add: TrackCalc_def Let_def TrackTimes_def split: prod.split option.split)
qed

lemma TrackCalc_prune:
  assumes "fSelUsingScin s \<noteq> 1" "fSelUsingPrune s = 1"
  shows "TrackCalc Sort h s =
     (case prune_select h s of (Some rc, s3) \<Rightarrow> (rc, s3) | (None, s3) \<Rightarrow> (0, s3))"
  using assms by (simp add: TrackCalc_def Let_def TrackTimes_def split: prod.split option.split)

lemma TrackCalc_none:
  assumes "fSelUsingScin s \<noteq> 1" "fSelUsingPrune s \<noteq> 1" "fSelUsingScin s \<noteq> 0 \<or> fSelUsingPrune s \<noteq> 0"
  shows "TrackCalc Sort h s = (0, s)"
  using assms by (auto simp add: TrackCalc_def Let_def TrackTimes_def)

lemma snd_case_rc:
  "snd (case p of (Some rc, s3) \<Rightarrow> (rc, s3) | (None, s3) \<Rightarrow> (0::int, s3)) = snd p"
  by (cases p; cases "fst p") auto

lemma TrackCalc_configuration:
  "configuration (snd (TrackCalc Sort h s)) = configuration s \<or>
   (fSelUsingPrune s = 1 \<and> configuration (snd (TrackCalc Sort h s)) = configuration (clamp_prune s))"
proof -
  consider (a) "fSelUsingScin s = 0" "fSelUsingPrune s = 0"
    | (b) "fSelUsingScin s = 1"
    | (c) "fSelUsingScin s \<noteq> 1" "fSelUsingPrune s = 1"
    | (d) "fSelUsingScin s \<noteq> 1" "fSelUsingPrune s \<noteq> 1" "fSelUsingScin s \<noteq> 0 \<or> fSelUsingPrune s \<noteq> 0"
    by blast
  then show ?thesis
  proof cases
    case a
    then show ?thesis by (simp add: TrackCalc_sorted configuration_sorted_first)
  next
    case b
    obtain r w s' where e: "scin_select h (new_work h s) s = (r, w, s')"
      by (cases "scin_select h (new_work h s) s")
    have fr: "sel_eq s s'" using scin_select_frame [of s h "new_work h s"] e by simp
    note c1 = configuration_sel_eq [OF fr]
    have c2: "configuration (snd (prune_select h s')) = configuration (clamp_prune s)"
      using configuration_sel_eq [OF prune_select_frame [of s' h]]
      by (simp add: configuration_clamp c1)
    show ?thesis
      by (cases r; cases "fSelUsingPrune s = 1")
        (simp_all add: TrackCalc_scin [OF b e] snd_case_rc c1 c2)
  next
    case c
    have "configuration (snd (prune_select h s)) = configuration (clamp_prune s)"
      by (rule configuration_sel_eq [OF prune_select_frame])
    with c show ?thesis by (simp add: TrackCalc_prune snd_case_rc)
  next
    case d
    then show ?thesis by (simp add: TrackCalc_none)
  qed
qed

subsection \<open>Strategy C decides when it runs; Strategy A\<close>

lemma scin_select_None:
  assumes tr: "fTracks s = map Some ts" "fNtracks s = length ts"
  shows "fst (scin_select h w s) = None"
proof (cases "fNtracks s > 0")
  case False
  then show ?thesis by (simp add: scin_select_def)
next
  case True
  let ?s0 = "s\<lparr>fChi2Min := 10000000000, fGoodTrack := - 1\<rparr>"
  let ?w0 = "w\<lparr>fY2Dmin := 100, fX2Dmin := 100, fRawIndex := - 1\<rparr>"
  have tr0: "fTracks ?s0 = map Some ts" using tr by simp
  obtain w1 s1 where e: "scin_steps h ts (length ts) (?w0, ?s0) = (w1, s1)"
    by (cases "scin_steps h ts (length ts) (?w0, ?s0)")
  have loop: "scin_loop h [0..<fNtracks ?s0] (?w0, ?s0) = (None, w1, s1)"
    using scin_loop_steps [OF tr0 le_refl, of h ?w0] tr(2) by (simp add: e)
  have "sel_eq ?s0 s1" using scin_steps_frame [of ?s0 h ts "length ts" ?w0] by (simp add: e)
  then have tr1: "fTracks s1 = map Some ts" "fNtracks s1 = length ts"
    using tr by (simp_all add: sel_eq_fields)
  have "fTracks (s1\<lparr>fChi2Min := 10000000000\<rparr>) = map Some ts" using tr1 by simp
  then have "rescan_loop [0..<length ts] (s1\<lparr>fChi2Min := 10000000000\<rparr>) =
      (None, fold (\<lambda>i. rescan_track i (ts ! i)) [0..<length ts] (s1\<lparr>fChi2Min := 10000000000\<rparr>))"
    by (rule rescan_loop_Some) simp
  with True loop tr1 show ?thesis by (simp add: scin_select_def Let_def)
qed

lemma best_steps_golden_upd:
  "best_steps ts keep k (s\<lparr>fGoldenTrack := p\<rparr>) = (best_steps ts keep k s)\<lparr>fGoldenTrack := p\<rparr>"
  by (induction k) (simp_all add: best_steps_0 best_steps_Suc pick_best_def Let_def)

lemma prune_select_golden_indep:
  assumes fr: "sel_eq s s1" and tr: "fTracks s = map Some ts" "fNtracks s = length ts"
  shows "prune_select h s1 = (None, snd (prune_select h s1)) \<and>
         fGoldenTrack (snd (prune_select h s1)) = fGoldenTrack (snd (prune_select h s))"
proof (cases "ts = []")
  case True
  with tr fr have "fNtracks s = 0" "fNtracks s1 = 0" by (simp_all add: sel_eq_fields)
  then show ?thesis by (simp add: prune_select_empty)
next
  case False
  from fr obtain g c p where s1: "s1 = s\<lparr>fGoodTrack := g, fChi2Min := c, fGoldenTrack := p\<rparr>"
    by (rule sel_eqE)
  have tr1: "fTracks s1 = map Some ts" "fNtracks s1 = length ts"
    using fr tr by (simp_all add: sel_eq_fields)
  have "sel_eq (clamp_prune s) (clamp_prune s1)"
    unfolding s1 by (rule sel_eqI [where g = g and c = c and p = p]) (simp add: clamp_prune_def)
  then have cuts: "prune_cuts (clamp_prune s1) = prune_cuts (clamp_prune s)"
    by (simp add: sel_eq_fields)
  have s2: "(clamp_prune s1)\<lparr>fChi2Min := 10000000000, fGoodTrack := 0\<rparr> =
      ((clamp_prune s)\<lparr>fChi2Min := 10000000000, fGoodTrack := 0\<rparr>)\<lparr>fGoldenTrack := p\<rparr>"
    by (simp add: s1 clamp_prune_def)
  show ?thesis
    by (simp add: prune_select_Some [OF tr False] prune_select_Some [OF tr1 False] Let_def cuts s2
        best_steps_golden_upd)
qed

lemma TrackCalc_prune_golden:
  assumes pr: "fSelUsingPrune s = 1" and tr: "fTracks s = map Some ts" "fNtracks s = length ts"
  shows "fst (TrackCalc Sort h s) = 0 \<and>
         fGoldenTrack (snd (TrackCalc Sort h s)) = fGoldenTrack (snd (prune_select h s)) \<and>
         fTracks (snd (TrackCalc Sort h s)) = fTracks s"
proof (cases "fSelUsingScin s = 1")
  case True
  obtain r w1 s1 where e: "scin_select h (new_work h s) s = (r, w1, s1)"
    by (cases "scin_select h (new_work h s) s")
  have r: "r = None" using scin_select_None [OF tr, of h "new_work h s"] by (simp add: e)
  have fr: "sel_eq s s1" using scin_select_frame [of s h "new_work h s"] e by simp
  note ind = prune_select_golden_indep [OF fr tr, of h]
  obtain q s3 where pe: "prune_select h s1 = (q, s3)" by (cases "prune_select h s1")
  have q: "q = None" using ind by (simp add: pe)
  have tc: "TrackCalc Sort h s = (0, snd (prune_select h s1))"
    by (simp add: TrackCalc_scin [OF True e] r pr pe q)
  have "sel_eq (clamp_prune s1) (snd (prune_select h s1))" by (rule prune_select_frame)
  then have "fTracks (snd (prune_select h s1)) = fTracks s"
    using fr by (simp add: sel_eq_fields clamp_prune_frame)
  with ind show ?thesis by (simp add: tc)
next
  case False
  note ind = prune_select_golden_indep [OF sel_eq_refl tr, of h]
  obtain q s3 where pe: "prune_select h s = (q, s3)" by (cases "prune_select h s")
  have q: "q = None" using ind by (simp add: pe)
  have tc: "TrackCalc Sort h s = (0, snd (prune_select h s))"
    by (simp add: TrackCalc_prune [OF False pr] pe q)
  have "sel_eq (clamp_prune s) (snd (prune_select h s))" by (rule prune_select_frame)
  then have "fTracks (snd (prune_select h s)) = fTracks s"
    by (simp add: sel_eq_fields clamp_prune_frame)
  then show ?thesis by (simp add: tc)
qed

text \<open>
  Claim C10. With both modes on and no null slot, Strategy B runs on the object as it
  came (the array is not sorted, whatever \<open>Sort\<close> is), Strategy C runs on the object B
  leaves, \<^verbatim>\<open>TrackCalc\<close> returns 0, and the golden track is the one Strategy C picks on
  its own.
\<close>

theorem both_flags_prune_decides:
  assumes "fSelUsingScin s = 1" "fSelUsingPrune s = 1"
    and "fTracks s = map Some ts" "fNtracks s = length ts"
  shows "(\<exists>w1 s1. scin_select h (new_work h s) s = (None, w1, s1) \<and>
            prune_select h s1 = (None, snd (TrackCalc Sort h s))) \<and>
         fst (TrackCalc Sort h s) = 0 \<and>
         fGoldenTrack (snd (TrackCalc Sort h s)) = fGoldenTrack (snd (prune_select h s)) \<and>
         fTracks (snd (TrackCalc Sort h s)) = fTracks s"
proof -
  obtain r w1 s1 where e: "scin_select h (new_work h s) s = (r, w1, s1)"
    by (cases "scin_select h (new_work h s) s")
  have r: "r = None" using scin_select_None [OF assms(3,4), of h "new_work h s"] by (simp add: e)
  have fr: "sel_eq s s1" using scin_select_frame [of s h "new_work h s"] e by simp
  note ind = prune_select_golden_indep [OF fr assms(3,4), of h]
  obtain q s3 where pe: "prune_select h s1 = (q, s3)" by (cases "prune_select h s1")
  have q: "q = None" using ind by (simp add: pe)
  have tc: "TrackCalc Sort h s = (0, snd (prune_select h s1))"
    by (simp add: TrackCalc_scin [OF assms(1) e] r assms(2) pe q)
  have "scin_select h (new_work h s) s = (None, w1, s1) \<and>
        prune_select h s1 = (None, snd (TrackCalc Sort h s))"
    using e r ind by (simp add: tc)
  then have "\<exists>w1 s1. scin_select h (new_work h s) s = (None, w1, s1) \<and>
        prune_select h s1 = (None, snd (TrackCalc Sort h s))" by blast
  with TrackCalc_prune_golden [OF assms(2-4), of Sort h] show ?thesis by simp
qed

text \<open>
  Claim C6, as amended. In Strategy C (prune mode on, no null slot), \<^verbatim>\<open>TrackCalc\<close>
  returns 0; on an empty event the golden track is cleared; on a non-empty event some
  track is kept after the pipeline; and when some kept track has a chi-square per degree
  of freedom below \<open>10^10\<close>, the golden track is a kept track whose chi-square per degree
  of freedom is least among the kept tracks. No other scan is made.
\<close>

theorem prune_golden_best_kept:
  assumes "fSelUsingPrune s = 1" "fTracks s = map Some ts" "fNtracks s = length ts"
    and "\<forall>t\<in>set ts. fNDoF t \<noteq> 0"
  shows "let keep = fst (prune_pipeline (prune_cuts (clamp_prune s) h) ts (length ts));
             s' = snd (TrackCalc Sort h s)
         in fst (TrackCalc Sort h s) = 0 \<and>
            (ts = [] \<longrightarrow> fGoldenTrack s' = None) \<and>
            (ts \<noteq> [] \<longrightarrow> (\<exists>i<length ts. keep ! i)) \<and>
            ((\<exists>i<length ts. keep ! i \<and> Chi2PerDeg (ts ! i) < 10000000000) \<longrightarrow>
             (\<exists>g<length ts. fGoldenTrack s' = Some g \<and> keep ! g \<and>
                (\<forall>j<length ts. keep ! j \<longrightarrow> Chi2PerDeg (ts ! g) \<le> Chi2PerDeg (ts ! j))))"
proof -
  let ?keep = "fst (prune_pipeline (prune_cuts (clamp_prune s) h) ts (length ts))"
  note tc = TrackCalc_prune_golden [OF assms(1-3), of Sort h]
  have empty: "fGoldenTrack (snd (prune_select h s)) = None" if "ts = []"
    using that assms(3) by (simp add: prune_select_empty)
  have one: "\<exists>i<length ts. ?keep ! i" if "ts \<noteq> []"
    using prune_pipeline_keeps_one [of "length ts" "length (prune_cuts (clamp_prune s) h)" "clamp_prune s" h ts] that
    by simp
  have best: "\<exists>g<length ts. fGoldenTrack (snd (prune_select h s)) = Some g \<and> ?keep ! g \<and>
      (\<forall>j<length ts. ?keep ! j \<longrightarrow> Chi2PerDeg (ts ! g) \<le> Chi2PerDeg (ts ! j))"
    if "\<exists>i<length ts. ?keep ! i \<and> Chi2PerDeg (ts ! i) < 10000000000"
    by (rule prune_select_golden [OF assms(2,3) refl that])
  show ?thesis unfolding Let_def using tc empty one best by simp
qed

text \<open>
  Claim C2. With both modes off and no null slot, \<^verbatim>\<open>TrackCalc\<close> returns 0 and: on an
  empty array the golden track is null; on a non-empty array without sorting it is the
  track of slot 0 of the array as it came; with sorting it is the track of slot 0 of the
  sorted array, which is a track of the event whose chi-square per degree of freedom is
  least among all tracks of the event. The sorting routine is any \<open>Sort\<close> that returns
  the same tracks in ascending order.
\<close>

theorem sorted_first_golden:
  assumes "fSelUsingScin s = 0" "fSelUsingPrune s = 0"
    and "fTracks s = map Some ts" "fNtracks s = length ts"
    and "Sort (map Some ts) = map Some ts'" "set ts' = set ts" "sorted (map Chi2PerDeg ts')"
    and "\<forall>t\<in>set ts. fNDoF t \<noteq> 0"
  shows "let s' = snd (TrackCalc Sort h s)
         in fst (TrackCalc Sort h s) = 0 \<and>
            (ts = [] \<longrightarrow> fGoldenTrack s' = None) \<and>
            (ts \<noteq> [] \<and> fSortTracks s \<longrightarrow>
               fGoldenTrack s' = Some 0 \<and> fTracks s' = map Some ts' \<and> ts' ! 0 \<in> set ts \<and>
               (\<forall>t\<in>set ts. Chi2PerDeg (ts' ! 0) \<le> Chi2PerDeg t)) \<and>
            (ts \<noteq> [] \<and> \<not> fSortTracks s \<longrightarrow> fGoldenTrack s' = Some 0 \<and> fTracks s' = map Some ts)"
proof -
  have tc: "TrackCalc Sort h s = (0, sorted_first Sort s)"
    by (rule TrackCalc_sorted [OF assms(1,2)])
  have empty: "fGoldenTrack (sorted_first Sort s) = None" if "ts = []"
    using that assms(4) by (simp add: sorted_first_def Let_def)
  have unsorted: "fGoldenTrack (sorted_first Sort s) = Some 0 \<and> fTracks (sorted_first Sort s) = map Some ts"
    if "ts \<noteq> []" "\<not> fSortTracks s"
    using that assms(3,4) track_ptr_Some [of 0 ts] by (simp add: sorted_first_def Let_def)
  have srt: "fGoldenTrack (sorted_first Sort s) = Some 0 \<and> fTracks (sorted_first Sort s) = map Some ts' \<and>
      ts' ! 0 \<in> set ts \<and> (\<forall>t\<in>set ts. Chi2PerDeg (ts' ! 0) \<le> Chi2PerDeg t)"
    if "ts \<noteq> []" "fSortTracks s"
  proof -
    have ne: "ts' \<noteq> []" using that(1) assms(6) by auto
    then obtain t0 rest where c: "ts' = t0 # rest" by (cases ts') auto
    have "\<forall>t\<in>set ts'. Chi2PerDeg t0 \<le> Chi2PerDeg t" using assms(7) by (auto simp: c)
    then have "\<forall>t\<in>set ts. Chi2PerDeg (ts' ! 0) \<le> Chi2PerDeg t"
      unfolding assms(6) [symmetric] by (simp add: c)
    moreover have "ts' ! 0 \<in> set ts" using assms(6) by (auto simp: c)
    moreover have "fGoldenTrack (sorted_first Sort s) = Some 0 \<and> fTracks (sorted_first Sort s) = map Some ts'"
      using that assms(3,4,5) track_ptr_Some [of 0 ts'] ne by (simp add: sorted_first_def Let_def)
    ultimately show ?thesis by blast
  qed
  show ?thesis unfolding Let_def tc using empty unsorted srt by simp
qed

subsection \<open>Configuration; Strategy B on the whole\<close>

lemma clamp_prune_idem: "clamp_prune (clamp_prune s) = clamp_prune s"
  by (simp add: clamp_prune_def)

lemma TrackCalc_configuration_Some:
  assumes tr: "fTracks s = map Some ts" "fNtracks s = length ts"
  shows "configuration (snd (TrackCalc Sort h s)) =
         configuration (if fSelUsingPrune s = 1 then clamp_prune s else s)"
proof -
  consider (a) "fSelUsingScin s = 0" "fSelUsingPrune s = 0"
    | (b) "fSelUsingScin s = 1"
    | (c) "fSelUsingScin s \<noteq> 1" "fSelUsingPrune s = 1"
    | (d) "fSelUsingScin s \<noteq> 1" "fSelUsingPrune s \<noteq> 1" "fSelUsingScin s \<noteq> 0 \<or> fSelUsingPrune s \<noteq> 0"
    by blast
  then show ?thesis
  proof cases
    case a
    then show ?thesis by (simp add: TrackCalc_sorted configuration_sorted_first)
  next
    case b
    obtain r w s' where e: "scin_select h (new_work h s) s = (r, w, s')"
      by (cases "scin_select h (new_work h s) s")
    have r: "r = None" using scin_select_None [OF tr, of h "new_work h s"] by (simp add: e)
    have fr: "sel_eq s s'" using scin_select_frame [of s h "new_work h s"] e by simp
    note c1 = configuration_sel_eq [OF fr]
    have c2: "configuration (snd (prune_select h s')) = configuration (clamp_prune s)"
      using configuration_sel_eq [OF prune_select_frame [of s' h]]
      by (simp add: configuration_clamp c1)
    show ?thesis
      by (cases "fSelUsingPrune s = 1") (simp_all add: TrackCalc_scin [OF b e] r snd_case_rc c1 c2)
  next
    case c
    have "configuration (snd (prune_select h s)) = configuration (clamp_prune s)"
      by (rule configuration_sel_eq [OF prune_select_frame])
    with c show ?thesis by (simp add: TrackCalc_prune snd_case_rc)
  next
    case d
    then show ?thesis by (simp add: TrackCalc_none)
  qed
qed

text \<open>
  Claim C9, as amended. \<^verbatim>\<open>TrackCalc\<close> leaves the configuration as it was, or, with
  prune mode on, as it was with each of the nine prune thresholds raised to its floor; on
  an event without null slot the latter holds exactly when prune mode is on. Raising is
  idempotent: thresholds at or above their floors stay as they are.
\<close>

theorem TrackCalc_clamps_prune_thresholds:
  "(configuration (snd (TrackCalc Sort h s)) = configuration s \<or>
    (fSelUsingPrune s = 1 \<and>
     configuration (snd (TrackCalc Sort h s)) = configuration (clamp_prune s))) \<and>
   configuration (snd (TrackCalc Sort h (s\<lparr>fTracks := map Some ts, fNtracks := length ts\<rparr>))) =
     configuration (if fSelUsingPrune s = 1 then clamp_prune s else s) \<and>
   clamp_prune (clamp_prune s) = clamp_prune s"
proof -
  let ?e = "s\<lparr>fTracks := map Some ts, fNtracks := length ts\<rparr>"
  have "configuration (snd (TrackCalc Sort h ?e)) =
      configuration (if fSelUsingPrune ?e = 1 then clamp_prune ?e else ?e)"
    by (rule TrackCalc_configuration_Some) simp_all
  also have "\<dots> = configuration (if fSelUsingPrune s = 1 then clamp_prune s else s)"
    by (simp add: configuration_def clamp_prune_def)
  finally show ?thesis using TrackCalc_configuration [of Sort h s] clamp_prune_idem [of s] by blast
qed

lemma scin_select_work:
  assumes tr: "fTracks s = map Some ts" "fNtracks s = length ts" and ne: "ts \<noteq> []"
    and res: "scin_select h w0 s = (r, w, s')"
  shows "w = fst (scin_steps h ts (length ts)
           (w0\<lparr>fY2Dmin := 100, fX2Dmin := 100, fRawIndex := - 1\<rparr>,
            s\<lparr>fChi2Min := 10000000000, fGoodTrack := - 1\<rparr>))"
proof -
  let ?s0 = "s\<lparr>fChi2Min := 10000000000, fGoodTrack := - 1\<rparr>"
  let ?w0 = "w0\<lparr>fY2Dmin := 100, fX2Dmin := 100, fRawIndex := - 1\<rparr>"
  have pos: "fNtracks s > 0" using ne tr(2) by simp
  have tr0: "fTracks ?s0 = map Some ts" using tr by simp
  obtain w1 s1 where e: "scin_steps h ts (length ts) (?w0, ?s0) = (w1, s1)"
    by (cases "scin_steps h ts (length ts) (?w0, ?s0)")
  have loop: "scin_loop h [0..<fNtracks ?s0] (?w0, ?s0) = (None, w1, s1)"
    using scin_loop_steps [OF tr0 le_refl, of h ?w0] tr(2) by (simp add: e)
  have "scin_select h w0 s =
      (if fGoodTrack s1 = - 1
       then (case rescan_loop [0..<fNtracks s1] (s1\<lparr>fChi2Min := 10000000000\<rparr>) of
               (r, s2) \<Rightarrow> (r, w1, s2))
       else (None, w1, s1))"
    using pos loop by (simp add: scin_select_def Let_def)
  with res have "w = w1" by (auto split: if_splits prod.splits)
  then show ?thesis by (simp add: e)
qed

lemma distances_single:
  assumes "fNtracks s = 1" "i < length (fY2D w)" "i < length (fX2D w)"
  shows "fY2D (distances s h i t w) ! i = 0 \<and> fX2D (distances s h i t w) ! i = 0"
proof -
  let ?w2 = "mark_hits s h (clear_marks h w)"
  have "dist_part ?w2 = dist_part w" by (rule marked_keeps)
  then have "fY2D ?w2 = fY2D w" "fX2D ?w2 = fX2D w" by (simp_all add: dist_part_def)
  with assms show ?thesis
    by (simp add: distances_def x_distance_def y_distance_def Let_def)
qed

text \<open>
  Claim C4, as amended. In Strategy B (scintillator mode on, prune mode off, no null
  slot), when some track qualifies and every qualifying track has a chi-square per degree
  of freedom below \<open>10^10\<close> and both distances at most 100 (the values the running minima
  start from), \<^verbatim>\<open>TrackCalc\<close> returns 0 and the golden track is a qualifying track whose
  score (Y distance, X distance, chi-square per degree of freedom) is lexicographically
  least among the qualifying tracks.
\<close>

theorem scin_golden_lexmin:
  assumes "fSelUsingScin s = 1" "fSelUsingPrune s \<noteq> 1"
    and "fTracks s = map Some ts" "fNtracks s = length ts"
    and "scin_select h (new_work h s) s = (r, w, s')"
    and "\<exists>j<length ts. qualifies s (ts ! j)"
    and "\<forall>j<length ts. qualifies s (ts ! j) \<longrightarrow>
           fNDoF (ts ! j) \<noteq> 0 \<and> Chi2PerDeg (ts ! j) < 10000000000 \<and>
           fY2D w ! j \<le> 100 \<and> fX2D w ! j \<le> 100"
  shows "TrackCalc Sort h s = (0, s') \<and>
     (\<exists>g<length ts. qualifies s (ts ! g) \<and> fGoldenTrack s' = Some g \<and>
        (\<forall>j<length ts. qualifies s (ts ! j) \<longrightarrow> score_le (score ts w g) (score ts w j)))"
proof -
  have bnd: "\<forall>j<length ts. qualifies s (ts ! j) \<longrightarrow>
      Chi2PerDeg (ts ! j) < 10000000000 \<and> fY2D w ! j \<le> 100 \<and> fX2D w ! j \<le> 100"
    using assms(7) by blast
  note q = scin_select_qualifying [OF assms(3,4,5,6) bnd]
  then have "r = None" by simp
  then have "TrackCalc Sort h s = (0, s')"
    using assms(2) by (simp add: TrackCalc_scin [OF assms(1,5)])
  with q show ?thesis by simp
qed

text \<open>
  Claim C7, as amended. In Strategy B, for an event with exactly one track, which
  qualifies and has a chi-square per degree of freedom below \<open>10^10\<close>: whatever the
  hodoscope holds, both distances of the track are 0, the track becomes golden and
  \<^verbatim>\<open>TrackCalc\<close> returns 0.
\<close>

theorem single_track_zero_distances:
  assumes "fSelUsingScin s = 1" "fSelUsingPrune s \<noteq> 1"
    and "fTracks s = [Some t]" "fNtracks s = 1"
    and "qualifies s t" "fNDoF t \<noteq> 0" "Chi2PerDeg t < 10000000000"
  shows "case scin_select h (new_work h s) s of
           (r, w, s') \<Rightarrow>
             fY2D w ! 0 = 0 \<and> fX2D w ! 0 = 0 \<and> fGoldenTrack s' = Some 0 \<and>
             TrackCalc Sort h s = (0, s')"
proof -
  obtain r w s' where e: "scin_select h (new_work h s) s = (r, w, s')"
    by (cases "scin_select h (new_work h s) s")
  let ?s0 = "s\<lparr>fChi2Min := 10000000000, fGoodTrack := - 1\<rparr>"
  let ?w0 = "(new_work h s)\<lparr>fY2Dmin := 100, fX2Dmin := 100, fRawIndex := - 1\<rparr>"
  have tr: "fTracks s = map Some [t]" "fNtracks s = length [t]" using assms(3,4) by simp_all
  have w: "w = fst (scin_steps h [t] (length [t]) (?w0, ?s0))"
    by (rule scin_select_work [OF tr _ e]) simp
  have q0: "qualifies ?s0 t" using assms(5) by (simp add: qualifies_sel_eq [of s ?s0] sel_eq_def)
  have "fY2D (distances ?s0 h 0 t ?w0) ! 0 = 0 \<and> fX2D (distances ?s0 h 0 t ?w0) ! 0 = 0"
    by (rule distances_single) (simp_all add: assms(4) new_work_def)
  then have d: "fY2D w ! 0 = 0" "fX2D w ! 0 = 0"
    using q0 by (simp_all add: w scin_steps_def scin_track_unfold select_track_arrays)
  have ex: "\<exists>j<length [t]. qualifies s ([t] ! j)" using assms(5) by simp
  have bnd: "\<forall>j<length [t]. qualifies s ([t] ! j) \<longrightarrow>
      Chi2PerDeg ([t] ! j) < 10000000000 \<and> fY2D w ! j \<le> 100 \<and> fX2D w ! j \<le> 100"
    using assms(7) d by simp
  from scin_select_qualifying [OF tr e ex bnd]
  have r: "r = None" and g: "fGoldenTrack s' = Some 0" by auto
  have "TrackCalc Sort h s = (0, s')"
    using assms(2) r by (simp add: TrackCalc_scin [OF assms(1) e])
  with d g show ?thesis by (simp add: e)
qed

subsection \<open>The concrete events\<close>

lemmas example_defs =
  event_def chi_track_def wide_track_def scin_spectrometer_def prune_spectrometer_def
  zero_spectrometer_def zero_track_def zero_hodoscope_def no_sort_def

lemma event_fields:
  "fTracks (event s ts) = map Some ts" "fNtracks (event s ts) = length ts"
  "fSelUsingScin (event s ts) = fSelUsingScin s" "fSelUsingPrune (event s ts) = fSelUsingPrune s"
  "fSortTracks (event s ts) = fSortTracks s"
  "qualifies (event s ts) = qualifies s"
  by (simp_all add: event_def qualifies_def passes_ndof_def passes_range_def fun_eq_iff)

lemma scin_flags: "fSelUsingScin scin_spectrometer = 1" "fSelUsingPrune scin_spectrometer = 0"
  by (simp_all add: scin_spectrometer_def zero_spectrometer_def)

lemma chi_track_qualifies:
  "qualifies scin_spectrometer (chi_track c)" "qualifies scin_spectrometer ((chi_track c)\<lparr>fY := y\<rparr>)"
  by (simp_all add: qualifies_def passes_ndof_def passes_range_def scin_spectrometer_def
      zero_spectrometer_def chi_track_def zero_track_def)

lemma chi_track_chi2:
  "Chi2PerDeg (chi_track c) = c" "Chi2PerDeg ((chi_track c)\<lparr>fY := y\<rparr>) = c"
  "fNDoF (chi_track c) = 1" "fNDoF ((chi_track c)\<lparr>fY := y\<rparr>) = 1"
  by (simp_all add: Chi2PerDeg_def chi_track_def zero_track_def)

lemma all_less_two: "(\<forall>j<2. P j) \<longleftrightarrow> P 0 \<and> P (Suc 0)"
  by (auto simp: less_2_cases_iff)

lemma ex_less_two: "(\<exists>j<2. P j) \<longleftrightarrow> P 0 \<or> P (Suc 0)"
  by (auto simp: less_2_cases_iff)

lemma lexmin_tracks_nth:
  "length lexmin_tracks = 2" "lexmin_tracks ! 0 = chi_track 5"
  "lexmin_tracks ! Suc 0 = (chi_track 3)\<lparr>fY := - 2\<rparr>"
  by (simp_all add: lexmin_tracks_def)

text \<open>
  An event for C4: the second track has the smaller Y distance and becomes golden.
\<close>

theorem scin_golden_lexmin_witness:
  "TrackCalc no_sort hodo_y_hit (event scin_spectrometer lexmin_tracks) =
     (0, snd (snd (scin_result hodo_y_hit (event scin_spectrometer lexmin_tracks)))) \<and>
   fGoldenTrack (snd (TrackCalc no_sort hodo_y_hit (event scin_spectrometer lexmin_tracks))) = Some 1 \<and>
   fY2D (fst (snd (scin_result hodo_y_hit (event scin_spectrometer lexmin_tracks)))) = [2, 0] \<and>
   fX2D (fst (snd (scin_result hodo_y_hit (event scin_spectrometer lexmin_tracks)))) = [0, 0]"
proof -
  let ?ev = "event scin_spectrometer lexmin_tracks"
  let ?X = "scin_result hodo_y_hit ?ev"
  have y: "fY2D (fst (snd ?X)) = [2, 0]" by code_simp
  have x: "fX2D (fst (snd ?X)) = [0, 0]" by code_simp
  have g: "fGoldenTrack (snd (snd ?X)) = Some 1" by code_simp
  have e: "scin_select hodo_y_hit (new_work hodo_y_hit ?ev) ?ev = (fst ?X, fst (snd ?X), snd (snd ?X))"
    by (simp add: scin_result_def)
  have ex: "\<exists>j<length lexmin_tracks. qualifies ?ev (lexmin_tracks ! j)"
    by (simp add: lexmin_tracks_nth ex_less_two event_fields chi_track_qualifies)
  have bnd: "\<forall>j<length lexmin_tracks. qualifies ?ev (lexmin_tracks ! j) \<longrightarrow>
      fNDoF (lexmin_tracks ! j) \<noteq> 0 \<and> Chi2PerDeg (lexmin_tracks ! j) < 10000000000 \<and>
      fY2D (fst (snd ?X)) ! j \<le> 100 \<and> fX2D (fst (snd ?X)) ! j \<le> 100"
    by (simp add: lexmin_tracks_nth all_less_two y x chi_track_chi2)
  from scin_golden_lexmin [of ?ev lexmin_tracks hodo_y_hit "fst ?X" "fst (snd ?X)" "snd (snd ?X)" no_sort,
      OF _ _ _ _ e ex bnd]
  have "TrackCalc no_sort hodo_y_hit ?ev = (0, snd (snd ?X))"
    by (simp add: event_fields scin_flags)
  with g y x show ?thesis by simp
qed

lemma TrackCalc_scin_result:
  assumes "fSelUsingScin s = 1" "fSelUsingPrune s \<noteq> 1" "fst (scin_result h s) = None"
  shows "TrackCalc Sort h s = (0, snd (snd (scin_result h s)))"
proof -
  have e: "scin_select h (new_work h s) s =
      (fst (scin_result h s), fst (snd (scin_result h s)), snd (snd (scin_result h s)))"
    by (simp add: scin_result_def)
  show ?thesis using assms(2,3) by (simp add: TrackCalc_scin [OF assms(1) e])
qed

lemma sentinel_tracks_nth:
  "length sentinel_tracks = 2" "sentinel_tracks ! 0 = chi_track 1"
  "sentinel_tracks ! Suc 0 = (chi_track 20000000000)\<lparr>fY := - 2\<rparr>"
  by (simp_all add: sentinel_tracks_def)

text \<open>
  Claim C4, as stated, fails: both tracks qualify, the second has the smaller Y distance,
  but its chi-square per degree of freedom is not below \<open>10^10\<close>, so the first stays
  golden although its score is not least.
\<close>

theorem scin_sentinel_hides_better_score:
  "fGoldenTrack (snd (TrackCalc no_sort hodo_y_hit (event scin_spectrometer sentinel_tracks))) = Some 0 \<and>
   qualifies (event scin_spectrometer sentinel_tracks) (sentinel_tracks ! 0) \<and>
   qualifies (event scin_spectrometer sentinel_tracks) (sentinel_tracks ! 1) \<and>
   fY2D (fst (snd (scin_result hodo_y_hit (event scin_spectrometer sentinel_tracks)))) = [2, 0] \<and>
   fX2D (fst (snd (scin_result hodo_y_hit (event scin_spectrometer sentinel_tracks)))) = [0, 0] \<and>
   \<not> score_le
       (score sentinel_tracks
          (fst (snd (scin_result hodo_y_hit (event scin_spectrometer sentinel_tracks)))) 0)
       (score sentinel_tracks
          (fst (snd (scin_result hodo_y_hit (event scin_spectrometer sentinel_tracks)))) 1)"
proof -
  let ?ev = "event scin_spectrometer sentinel_tracks"
  let ?X = "scin_result hodo_y_hit ?ev"
  have y: "fY2D (fst (snd ?X)) = [2, 0]" by code_simp
  have x: "fX2D (fst (snd ?X)) = [0, 0]" by code_simp
  have g: "fGoldenTrack (snd (snd ?X)) = Some 0" by code_simp
  have r: "fst ?X = None" by code_simp
  have tc: "TrackCalc no_sort hodo_y_hit ?ev = (0, snd (snd ?X))"
    by (rule TrackCalc_scin_result) (simp_all add: event_fields scin_flags r)
  have q: "qualifies ?ev (sentinel_tracks ! 0)" "qualifies ?ev (sentinel_tracks ! 1)"
    by (simp_all add: sentinel_tracks_nth event_fields chi_track_qualifies)
  have "\<not> score_le (score sentinel_tracks (fst (snd ?X)) 0) (score sentinel_tracks (fst (snd ?X)) 1)"
    by (simp add: score_def score_le_def y x)
  with tc g y x q show ?thesis by simp
qed

text \<open>
  An event for C7: a single track, and a hodoscope whose only hit is two paddles away
  from it.
\<close>

theorem single_track_zero_distances_witness:
  "fY2D (fst (snd (scin_result hodo_y_hit (event scin_spectrometer single_tracks)))) ! 0 = 0 \<and>
   fX2D (fst (snd (scin_result hodo_y_hit (event scin_spectrometer single_tracks)))) ! 0 = 0 \<and>
   fGoldenTrack (snd (snd (scin_result hodo_y_hit (event scin_spectrometer single_tracks)))) = Some 0 \<and>
   TrackCalc no_sort hodo_y_hit (event scin_spectrometer single_tracks) =
     (0, snd (snd (scin_result hodo_y_hit (event scin_spectrometer single_tracks))))"
  using single_track_zero_distances [where s = "event scin_spectrometer single_tracks"
      and t = "chi_track 1" and h = hodo_y_hit and Sort = no_sort]
  by (simp add: event_fields scin_flags single_tracks_def chi_track_qualifies chi_track_chi2
      scin_result_def case_prod_beta)

lemma one_of_two_tracks_nth:
  "length one_of_two_tracks = 2" "one_of_two_tracks ! 0 = chi_track 1"
  "one_of_two_tracks ! Suc 0 = zero_track"
  by (simp_all add: one_of_two_tracks_def)

text \<open>
  Claim C7, as stated, fails: of the two tracks of the event exactly one qualifies, and
  its Y distance is 2, not 0, because the test is on the number of tracks of the event.
\<close>

theorem one_qualifying_of_two_nonzero_distance:
  "qualifies (event scin_spectrometer one_of_two_tracks) (one_of_two_tracks ! 0) \<and>
   \<not> qualifies (event scin_spectrometer one_of_two_tracks) (one_of_two_tracks ! 1) \<and>
   length one_of_two_tracks = 2 \<and>
   fY2D (fst (snd (scin_result hodo_y_hit (event scin_spectrometer one_of_two_tracks)))) ! 0 = 2 \<and>
   fGoldenTrack (snd (TrackCalc no_sort hodo_y_hit (event scin_spectrometer one_of_two_tracks))) = Some 0"
proof -
  let ?ev = "event scin_spectrometer one_of_two_tracks"
  let ?X = "scin_result hodo_y_hit ?ev"
  have y: "fY2D (fst (snd ?X)) ! 0 = 2" by code_simp
  have g: "fGoldenTrack (snd (snd ?X)) = Some 0" by code_simp
  have r: "fst ?X = None" by code_simp
  have tc: "TrackCalc no_sort hodo_y_hit ?ev = (0, snd (snd ?X))"
    by (rule TrackCalc_scin_result) (simp_all add: event_fields scin_flags r)
  have q: "qualifies ?ev (one_of_two_tracks ! 0)" "\<not> qualifies ?ev (one_of_two_tracks ! 1)"
    by (simp_all add: one_of_two_tracks_nth event_fields chi_track_qualifies)
      (simp add: qualifies_def passes_ndof_def scin_spectrometer_def zero_spectrometer_def zero_track_def)
  from tc g y q show ?thesis by (simp add: one_of_two_tracks_nth)
qed

text \<open>
  Claim C5 on the code: the only track fails the cut on \<^verbatim>\<open>NDoF\<close>, so neither scan
  selects a track, and \<^verbatim>\<open>TrackCalc\<close> returns 0 with the golden track still the one it
  was given; it is not cleared.
\<close>

theorem rescan_leaves_stale_golden:
  "fst (TrackCalc no_sort zero_hodoscope stale_event) = 0 \<and>
   fGoldenTrack (snd (TrackCalc no_sort zero_hodoscope stale_event)) = Some 0 \<and>
   fGoldenTrack stale_event = Some 0 \<and>
   fTracks stale_event = [Some (chi_track 1)] \<and>
   \<not> passes_ndof stale_event (chi_track 1)"
proof -
  let ?X = "scin_result zero_hodoscope stale_event"
  have g: "fGoldenTrack (snd (snd ?X)) = Some 0" by code_simp
  have r: "fst ?X = None" by code_simp
  have f: "fSelUsingScin stale_event = 1" "fSelUsingPrune stale_event \<noteq> 1"
    by (simp_all add: stale_event_def event_def scin_spectrometer_def zero_spectrometer_def)
  have tc: "TrackCalc no_sort zero_hodoscope stale_event = (0, snd (snd ?X))"
    by (rule TrackCalc_scin_result [OF f r])
  have "\<not> passes_ndof stale_event (chi_track 1)" "fGoldenTrack stale_event = Some 0"
    "fTracks stale_event = [Some (chi_track 1)]"
    by (simp_all add: stale_event_def event_def passes_ndof_def chi_track_def zero_track_def)
  with tc g show ?thesis by simp
qed

lemma mark_hit_raw: "fRawIndex (mark_hit h ip w) = fRawIndex w + 1"
  by (simp add: mark_hit_def Let_def)

lemma mark_plane_raw: "fRawIndex (mark_plane h ip w) = fRawIndex w + int (GetNScinHits h ip)"
proof -
  have "fRawIndex (fold (\<lambda>ihit. mark_hit h ip) xs w) = fRawIndex w + int (length xs)"
    for xs :: "nat list"
    by (induction xs arbitrary: w) (simp_all add: mark_hit_raw)
  then show ?thesis by (simp add: mark_plane_def)
qed

lemma mark_hits_raw:
  "fRawIndex (mark_hits s h w) =
     fRawIndex w + int (\<Sum>ip\<leftarrow>[0..<nat (fNPlanes s)]. GetNScinHits h ip)"
proof -
  have "fRawIndex (fold (mark_plane h) ps w) =
      fRawIndex w + int (\<Sum>ip\<leftarrow>ps. GetNScinHits h ip)" for ps
    by (induction ps arbitrary: w) (simp_all add: mark_plane_raw)
  then show ?thesis by (simp add: mark_hits_def)
qed

text \<open>
  Claim C8 on the code. Every walk over the planes moves \<^verbatim>\<open>fRawIndex\<close> forward by the
  number of hits of the event, and nothing moves it back between two tracks. In the
  event below, with two equal tracks and one hit, on paddle 0 of the X plane, the first
  evaluation marks paddle 0 (the marks of a walk that starts at index \<open>-1\<close>), the second
  reads the accessor at index 1, past the hit, and marks paddle 3: the two tracks get the
  X distances 0 and 3.
\<close>

theorem hit_index_runs_past_the_hits:
  "fRawIndex (mark_hits s h w) =
     fRawIndex w + int (\<Sum>ip\<leftarrow>[0..<nat (fNPlanes s)]. GetNScinHits h ip) \<and>
   fX2D (fst (snd (scin_result hodo_x_hit (event scin_spectrometer twin_tracks)))) = [0, 3] \<and>
   f2XHits (fst (snd (scin_result hodo_x_hit (event scin_spectrometer twin_tracks)))) = [- 1, - 1, - 1, 0] \<and>
   fRawIndex (fst (snd (scin_result hodo_x_hit (event scin_spectrometer twin_tracks)))) = 1 \<and>
   f2XHits (mark_hits (event scin_spectrometer twin_tracks) hodo_x_hit
      ((clear_marks hodo_x_hit (new_work hodo_x_hit (event scin_spectrometer twin_tracks)))
         \<lparr>fRawIndex := - 1\<rparr>)) = [0, - 1, - 1, - 1] \<and>
   twin_tracks ! 0 = twin_tracks ! 1 \<and>
   (GetNScinHits hodo_x_hit 0 + GetNScinHits hodo_x_hit 1 + GetNScinHits hodo_x_hit 2 +
      GetNScinHits hodo_x_hit 3 = 1) \<and>
   GetGoodRawPad hodo_x_hit 0 = 0"
proof -
  let ?X = "scin_result hodo_x_hit (event scin_spectrometer twin_tracks)"
  have "fX2D (fst (snd ?X)) = [0, 3]" by code_simp
  moreover have "f2XHits (fst (snd ?X)) = [- 1, - 1, - 1, 0]" by code_simp
  moreover have "fRawIndex (fst (snd ?X)) = 1" by code_simp
  moreover have "f2XHits (mark_hits (event scin_spectrometer twin_tracks) hodo_x_hit
      ((clear_marks hodo_x_hit (new_work hodo_x_hit (event scin_spectrometer twin_tracks)))
         \<lparr>fRawIndex := - 1\<rparr>)) = [0, - 1, - 1, - 1]" by code_simp
  moreover have "twin_tracks ! 0 = twin_tracks ! 1" by (simp add: twin_tracks_def)
  moreover have "GetNScinHits hodo_x_hit 0 + GetNScinHits hodo_x_hit 1 + GetNScinHits hodo_x_hit 2 +
      GetNScinHits hodo_x_hit 3 = 1" "GetGoodRawPad hodo_x_hit 0 = 0"
    by (simp_all add: hodo_x_hit_def)
  ultimately show ?thesis using mark_hits_raw [of s h w] by simp
qed

lemmas prune_defs =
  prune_pipeline_def soft_cut_def count_good_def reject_bad_def prune_cuts_def prune_xptar_def
  prune_yptar_def prune_ytar_def prune_delta_def prune_beta_def prune_df_def prune_npmt_def
  prune_chibeta_def prune_fptime_def prune_y2_def prune_x2_def fBetaP_def clamp_prune_def

lemma prune_flags: "fSelUsingScin prune_spectrometer = 0" "fSelUsingPrune prune_spectrometer = 1"
  by (simp_all add: prune_spectrometer_def zero_spectrometer_def)

lemma prune_tracks_nth:
  "length prune_tracks = 2" "prune_tracks ! 0 = wide_track" "prune_tracks ! Suc 0 = chi_track 2"
  "prune_tracks \<noteq> []" "set prune_tracks = {wide_track, chi_track 2}"
  by (auto simp: prune_tracks_def)

lemma wide_track_chi2: "Chi2PerDeg wide_track = 1" "fNDoF wide_track = 1"
  by (simp_all add: wide_track_def Chi2PerDeg_def chi_track_def zero_track_def)

lemma prune_tracks_keep:
  "fst (prune_pipeline (prune_cuts (clamp_prune (event prune_spectrometer prune_tracks)) zero_hodoscope)
     prune_tracks (length prune_tracks)) = [False, True]"
  by (simp add: prune_defs example_defs prune_tracks_def upt_rec eval_nat_numeral)

text \<open>
  An event for C6: the first track is rejected by the first cut, the second is golden.
\<close>

theorem prune_golden_best_kept_witness:
  "fst (TrackCalc no_sort zero_hodoscope (event prune_spectrometer prune_tracks)) = 0 \<and>
   fGoldenTrack (snd (TrackCalc no_sort zero_hodoscope (event prune_spectrometer prune_tracks))) = Some 1 \<and>
   fst (prune_pipeline (prune_cuts (clamp_prune (event prune_spectrometer prune_tracks)) zero_hodoscope)
     prune_tracks (length prune_tracks)) = [False, True]"
proof -
  let ?ev = "event prune_spectrometer prune_tracks"
  have nd: "\<forall>t\<in>set prune_tracks. fNDoF t \<noteq> 0"
    by (simp add: prune_tracks_nth wide_track_chi2 chi_track_chi2)
  from prune_golden_best_kept [where s = ?ev and ts = prune_tracks and h = zero_hodoscope
      and Sort = no_sort, OF _ _ _ nd]
  show ?thesis
    by (simp add: event_fields prune_flags Let_def prune_tracks_keep)
      (auto simp add: prune_tracks_nth ex_less_two all_less_two chi_track_chi2 less_2_cases_iff)
qed

lemma prune_sentinel_keep:
  "fst (prune_pipeline (prune_cuts (clamp_prune (event prune_spectrometer prune_sentinel_tracks)) zero_hodoscope)
     prune_sentinel_tracks (length prune_sentinel_tracks)) = [False, True]"
  by (simp add: prune_defs example_defs prune_sentinel_tracks_def upt_rec eval_nat_numeral)

text \<open>
  Claim C6, as stated, fails: the only kept track has a chi-square per degree of freedom
  that is not below \<open>10^10\<close>, and the golden track is the track of slot 0, which is not
  kept.
\<close>

theorem prune_sentinel_golden_not_kept:
  "fGoldenTrack (snd (TrackCalc no_sort zero_hodoscope (event prune_spectrometer prune_sentinel_tracks))) = Some 0 \<and>
   fst (prune_pipeline (prune_cuts (clamp_prune (event prune_spectrometer prune_sentinel_tracks)) zero_hodoscope)
     prune_sentinel_tracks (length prune_sentinel_tracks)) = [False, True]"
proof -
  let ?ev = "event prune_spectrometer prune_sentinel_tracks"
  have tr: "fTracks ?ev = map Some prune_sentinel_tracks" "fNtracks ?ev = length prune_sentinel_tracks"
    by (simp_all add: event_fields)
  have ne: "prune_sentinel_tracks \<noteq> []" by (simp add: prune_sentinel_tracks_def)
  have "fGoldenTrack (snd (prune_select zero_hodoscope ?ev)) = Some 0"
    unfolding prune_select_Some [OF tr ne] Let_def prune_sentinel_keep
    by (simp add: best_steps_def pick_best_def Let_def prune_sentinel_tracks_def upt_rec
        eval_nat_numeral chi_track_chi2 wide_track_chi2 track_ptr_def At_def)
  moreover have "fGoldenTrack (snd (TrackCalc no_sort zero_hodoscope ?ev)) =
      fGoldenTrack (snd (prune_select zero_hodoscope ?ev))"
    using TrackCalc_prune_golden [OF _ tr, of no_sort zero_hodoscope]
    by (simp add: event_fields prune_flags)
  ultimately show ?thesis by (simp add: prune_sentinel_keep)
qed

lemma skip_before:
  "prune_pipeline (take 1 (prune_cuts (clamp_prune prune_spectrometer) zero_hodoscope))
     skip_tracks (length skip_tracks) = ([False, True], [1, 0])"
  by (simp add: prune_defs example_defs skip_tracks_def upt_rec eval_nat_numeral)

lemma skip_cut:
  "prune_cuts (clamp_prune prune_spectrometer) zero_hodoscope ! 1 =
     prune_yptar (clamp_prune prune_spectrometer)"
  by (simp add: prune_cuts_def)

text \<open>
  An event for C3: the first cut rejects the first track; no kept track passes the
  second cut, which is skipped.
\<close>

theorem soft_cut_enforced_witness:
  "prune_pipeline (take (Suc 1) (prune_cuts (clamp_prune prune_spectrometer) zero_hodoscope))
     skip_tracks (length skip_tracks) =
   prune_pipeline (take 1 (prune_cuts (clamp_prune prune_spectrometer) zero_hodoscope))
     skip_tracks (length skip_tracks) \<and>
   prune_pipeline (take 1 (prune_cuts (clamp_prune prune_spectrometer) zero_hodoscope))
     skip_tracks (length skip_tracks) = ([False, True], [1, 0])"
proof -
  let ?cuts = "prune_cuts (clamp_prune prune_spectrometer) zero_hodoscope"
  let ?before = "prune_pipeline (take 1 ?cuts) skip_tracks (length skip_tracks)"
  have ne: "skip_tracks \<noteq> []" by (simp add: skip_tracks_def)
  have k: "1 < length ?cuts" by (simp add: prune_cuts_def)
  have len: "length skip_tracks = 2" by (simp add: skip_tracks_def)
  have bad1: "\<not> good (prune_yptar (clamp_prune prune_spectrometer)) (skip_tracks ! Suc 0)"
    by (simp add: prune_yptar_def clamp_prune_def prune_spectrometer_def zero_spectrometer_def
        skip_tracks_def chi_track_def zero_track_def)
  have none: "\<not> (\<exists>i<length skip_tracks. fst ?before ! i \<and> good (?cuts ! 1) (skip_tracks ! i))"
    unfolding skip_before skip_cut by (simp add: len ex_less_two bad1)
  note th = soft_cut_enforced [OF ne k, unfolded Let_def if_not_P [OF none]]
  from th [THEN conjunct2, THEN conjunct1] skip_before show ?thesis by (rule conjI)
qed

lemma sort_tracks_sorted: "chi_sort (map Some sort_tracks) = map Some [chi_track 1, chi_track 3]"
  by (simp add: chi_sort_def sort_tracks_def comp_def chi_track_chi2)

text \<open>
  An event for C2: two tracks in descending order, sorted by a stable sort.
\<close>

theorem sorted_first_golden_witness:
  "fst (TrackCalc chi_sort zero_hodoscope sort_event) = 0 \<and>
   fGoldenTrack (snd (TrackCalc chi_sort zero_hodoscope sort_event)) = Some 0 \<and>
   fTracks (snd (TrackCalc chi_sort zero_hodoscope sort_event)) = [Some (chi_track 1), Some (chi_track 3)]"
proof -
  have f: "fSelUsingScin sort_event = 0" "fSelUsingPrune sort_event = 0"
    "fTracks sort_event = map Some sort_tracks" "fNtracks sort_event = length sort_tracks"
    "fSortTracks sort_event"
    by (simp_all add: sort_event_def event_def zero_spectrometer_def)
  have s: "set [chi_track 1, chi_track 3] = set sort_tracks" by (auto simp: sort_tracks_def)
  have o: "sorted (map Chi2PerDeg [chi_track 1, chi_track 3])" by (simp add: chi_track_chi2)
  have nd: "\<forall>t\<in>set sort_tracks. fNDoF t \<noteq> 0" by (simp add: sort_tracks_def chi_track_chi2)
  have ne: "sort_tracks \<noteq> []" by (simp add: sort_tracks_def)
  from sorted_first_golden [where Sort = chi_sort and s = sort_event and ts = sort_tracks
      and ts' = "[chi_track 1, chi_track 3]" and h = zero_hodoscope,
      OF f(1-4) sort_tracks_sorted s o nd]
  show ?thesis by (simp add: Let_def f(5) ne)
qed

text \<open>
  An event for C10: Strategy B picks the track of slot 0, Strategy C rejects it and the
  golden track is the track of slot 1.
\<close>

theorem both_flags_prune_decides_witness:
  "fst (TrackCalc no_sort hodo_y_hit both_event) = 0 \<and>
   fGoldenTrack (snd (TrackCalc no_sort hodo_y_hit both_event)) = Some 1 \<and>
   fGoldenTrack (snd (snd (scin_result hodo_y_hit both_event))) = Some 0 \<and>
   fTracks (snd (TrackCalc no_sort hodo_y_hit both_event)) = fTracks both_event"
proof -
  have f: "fSelUsingScin both_event = 1" "fSelUsingPrune both_event = 1"
    "fTracks both_event = map Some prune_tracks" "fNtracks both_event = length prune_tracks"
    by (simp_all add: both_event_def event_def scin_spectrometer_def zero_spectrometer_def)
  have keep: "fst (prune_pipeline (prune_cuts (clamp_prune both_event) hodo_y_hit)
     prune_tracks (length prune_tracks)) = [False, True]"
    by (simp add: prune_defs example_defs both_event_def hodo_y_hit_def prune_tracks_def upt_rec
        eval_nat_numeral)
  have "fGoldenTrack (snd (prune_select hodo_y_hit both_event)) = Some 1"
    unfolding prune_select_Some [OF f(3,4) prune_tracks_nth(4)] Let_def keep
    by (simp add: best_steps_def pick_best_def Let_def prune_tracks_def upt_rec
        eval_nat_numeral chi_track_chi2 wide_track_chi2 track_ptr_def At_def)
  moreover have "fGoldenTrack (snd (snd (scin_result hodo_y_hit both_event))) = Some 0"
    by code_simp
  ultimately show ?thesis
    using both_flags_prune_decides [OF f, of hodo_y_hit no_sort] by simp
qed

text \<open>
  Claim C9, as stated, fails: with prune mode on and \<^verbatim>\<open>fPruneXp\<close> configured as 0, the
  threshold is 0.08 after the call.
\<close>

theorem prune_threshold_raised:
  "fPruneXp (snd (TrackCalc no_sort zero_hodoscope prune_spectrometer)) \<noteq> fPruneXp prune_spectrometer"
proof -
  have "TrackCalc no_sort zero_hodoscope prune_spectrometer =
      (0, (clamp_prune prune_spectrometer)\<lparr>fGoldenTrack := None\<rparr>)"
    by (simp add: TrackCalc_prune prune_flags prune_select_empty prune_spectrometer_def
        zero_spectrometer_def)
  then show ?thesis
    by (simp add: clamp_prune_def prune_spectrometer_def zero_spectrometer_def)
qed

end
